theory Spec2Isabelle
  imports Main "HOL-Library.Multiset"
begin

section \<open>Value types\<close>

text \<open>
  The board and port reconciliation engine of the IDE
  (\<^verbatim>\<open>boards-service-provider.ts\<close>, class \<^verbatim>\<open>BoardsServiceProvider\<close>).

  A JavaScript object with optional properties is a record of options: \<open>None\<close> is
  \<^verbatim>\<open>undefined\<close>. \<^verbatim>\<open>AvailableBoard\<close> extends \<^verbatim>\<open>Board\<close> structurally, and a
  configuration's \<^verbatim>\<open>selectedBoard\<close> can be an available board at run time, so one record
  carries the properties of both interfaces.
\<close>

record Port =
  address :: string
  protocol :: string

datatype State = recognized | guessed | incomplete

record Board =
  name :: string
  fqbn :: "string option"
  packageId :: "string option"
  port :: "Port option"
  state :: "State option"
  selected :: "bool option"

record Config =
  selectedBoard :: "Board option"
  selectedPort :: "Port option"

text \<open>The numeric value of the enum \<^verbatim>\<open>AvailableBoard.State\<close>.\<close>

fun State_value :: "State \<Rightarrow> nat" where
  "State_value recognized = 0"
| "State_value guessed = 1"
| "State_value incomplete = 2"

text \<open>
  JavaScript truthiness of an optional string: \<^verbatim>\<open>undefined\<close> and the empty string are
  falsy.
\<close>

definition truthy :: "string option \<Rightarrow> bool" where
  "truthy v = (case v of None \<Rightarrow> False | Some x \<Rightarrow> x \<noteq> [])"

text \<open>
  Modelled from the spec: \<^verbatim>\<open>Port.sameAs\<close> (\<^verbatim>\<open>common/protocol\<close> is not among the sources).
  Two ports are the same iff address and protocol match; an absent port is the same as
  nothing.
\<close>

definition Port_sameAs :: "Port option \<Rightarrow> Port option \<Rightarrow> bool" where
  "Port_sameAs left right =
     (case left of
        None \<Rightarrow> False
      | Some l \<Rightarrow> (case right of
            None \<Rightarrow> False
          | Some r \<Rightarrow> address l = address r \<and> protocol l = protocol r))"

text \<open>
  Modelled from the spec: \<^verbatim>\<open>Board.equals\<close> (\<^verbatim>\<open>common/protocol\<close> is not among the
  sources). Board equality: name and fqbn match, presence or absence of the fqbn included.
\<close>

definition Board_equals :: "Board \<Rightarrow> Board \<Rightarrow> bool" where
  "Board_equals left right = (name left = name right \<and> fqbn left = fqbn right)"

text \<open>
  Modelled from the spec: \<^verbatim>\<open>Board.sameAs\<close> (\<^verbatim>\<open>common/protocol\<close> is not among the
  sources). A board is the same as another iff name and fqbn match.
\<close>

definition Board_sameAs :: "Board \<Rightarrow> Board \<Rightarrow> bool" where
  "Board_sameAs left right = (name left = name right \<and> fqbn left = fqbn right)"

text \<open>
  Modelled from the spec: \<^verbatim>\<open>BoardsConfig.Config.sameAs\<close> applied to a board
  (\<^verbatim>\<open>boards-config\<close> is not among the sources). Configuration match: the board equals
  the selected board and the board's own port is the same as the selected port.
\<close>

definition Config_sameAs :: "Config \<Rightarrow> Board \<Rightarrow> bool" where
  "Config_sameAs config other =
     (case selectedBoard config of
        None \<Rightarrow> False
      | Some b \<Rightarrow> Board_equals other b \<and> Port_sameAs (selectedPort config) (port other))"

text \<open>\<^verbatim>\<open>AvailableBoard.is\<close>: a board that has the property \<^verbatim>\<open>state\<close>.\<close>

definition AvailableBoard_is :: "Board \<Rightarrow> bool" where
  "AvailableBoard_is b = (case state b of None \<Rightarrow> False | Some _ \<Rightarrow> True)"

section \<open>Engine state\<close>

datatype notification =
  BoardsConfigChanged Config
| AvailableBoardsChanged "Board list"
| AvailablePortsChanged "Port list"

text \<open>
  The fields of the service. \<open>fired\<close> is the log of the events the three emitters have
  fired, oldest first.
\<close>

record engine =
  boardsConfig :: Config
  latestBoardsConfig :: "Config option"
  latestValidBoardsConfig :: "Config option"
  attachedBoards :: "Board list"
  availablePorts :: "Port list"
  availableBoards :: "Board list"
  fired :: "notification list"

text \<open>The field initialisers of the class.\<close>

definition init_engine :: engine where
  "init_engine =
     \<lparr>boardsConfig = \<lparr>selectedBoard = None, selectedPort = None\<rparr>,
      latestBoardsConfig = None,
      latestValidBoardsConfig = None,
      attachedBoards = [],
      availablePorts = [],
      availableBoards = [],
      fired = []\<rparr>"

section \<open>Validation\<close>

text \<open>The warnings the message service is asked to show.\<close>

datatype message = NoneSelected | NoPortsSelected string | NoFQBN string

record options =
  silent :: bool

text \<open>
  \<^verbatim>\<open>canVerify(config = this.boardsConfig, options = { silent: true })\<close>. An argument that
  is \<^verbatim>\<open>undefined\<close> (\<open>None\<close>) takes the parameter's default, as JavaScript default
  parameters do. The result is the returned boolean and the warnings shown.
\<close>

definition canVerify :: "engine \<Rightarrow> Config option \<Rightarrow> options option \<Rightarrow> bool \<times> message list" where
  "canVerify s config_arg options_arg =
     (let config = (case config_arg of None \<Rightarrow> Some (boardsConfig s) | Some c \<Rightarrow> Some c);
          opts = (case options_arg of None \<Rightarrow> \<lparr>silent = True\<rparr> | Some opt \<Rightarrow> opt)
      in case config of
           None \<Rightarrow> (False, [])
         | Some c \<Rightarrow>
             (case selectedBoard c of
                None \<Rightarrow> (False, if silent opts then [] else [NoneSelected])
              | Some b \<Rightarrow> (True, [])))"

text \<open>
  \<^verbatim>\<open>canUploadTo(config = this.boardsConfig, options = { silent: true })\<close>. After
  \<^verbatim>\<open>canVerify\<close> has returned true the selected board is present; the branch for its
  absence is the \<^verbatim>\<open>TypeError\<close> of reading \<^verbatim>\<open>config.selectedBoard.name\<close> and is
  written as a false result.
\<close>

definition canUploadTo :: "engine \<Rightarrow> Config option \<Rightarrow> options option \<Rightarrow> bool \<times> message list" where
  "canUploadTo s config_arg options_arg =
     (let config = (case config_arg of None \<Rightarrow> boardsConfig s | Some c \<Rightarrow> c);
          opts = (case options_arg of None \<Rightarrow> \<lparr>silent = True\<rparr> | Some opt \<Rightarrow> opt);
          verified = canVerify s (Some config) (Some opts)
      in if fst verified then
           (case selectedBoard config of
              None \<Rightarrow> (False, snd verified)
            | Some b \<Rightarrow>
                (case selectedPort config of
                   None \<Rightarrow> (False, if silent opts then [] else [NoPortsSelected (name b)])
                 | Some p \<Rightarrow>
                     if truthy (fqbn b) then (True, [])
                     else (False, if silent opts then [] else [NoFQBN (name b)])))
         else (False, snd verified))"

text \<open>
  The spec's words for the strictest validity tier: a configuration is uploadable when
  it has a board, a port, and the board has a non-empty fqbn.
\<close>

definition uploadable :: "Config \<Rightarrow> bool" where
  "uploadable c =
     (case selectedBoard c of
        None \<Rightarrow> False
      | Some b \<Rightarrow> (case selectedPort c of None \<Rightarrow> False | Some p \<Rightarrow> truthy (fqbn b)))"

section \<open>Setting the configuration\<close>

text \<open>\<^verbatim>\<open>setBoardsConfig\<close>: the three assignments, in the source's order.\<close>

definition setBoardsConfig :: "Config \<Rightarrow> engine \<Rightarrow> engine" where
  "setBoardsConfig config s =
     (let s1 = s\<lparr>boardsConfig := config\<rparr>;
          s2 = s1\<lparr>latestBoardsConfig := Some (boardsConfig s1)\<rparr>
      in if fst (canUploadTo s2 (Some (boardsConfig s2)) None)
         then s2\<lparr>latestValidBoardsConfig := Some (boardsConfig s2)\<rparr>
         else s2)"

text \<open>
  The setter \<^verbatim>\<open>set boardsConfig\<close>. It calls \<^verbatim>\<open>setBoardsConfig\<close> at once; saving the
  state, the reconciliation and the notification are promise continuations that run
  after the caller has returned. The model is the synchronous part.
\<close>

definition set_boardsConfig :: "Config \<Rightarrow> engine \<Rightarrow> engine" where
  "set_boardsConfig config s = setBoardsConfig config s"

text \<open>A sequence of configuration sets, oldest first.\<close>

definition set_all :: "Config list \<Rightarrow> engine \<Rightarrow> engine" where
  "set_all configs s = foldl (\<lambda>acc c. set_boardsConfig c acc) s configs"

section \<open>Auto-reconnect\<close>

datatype error = TypeError

text \<open>
  The first loop of \<^verbatim>\<open>tryReconnect\<close>, over the boards that are not incomplete. The field
  \<^verbatim>\<open>_latestValidBoardsConfig\<close> is typed \<^verbatim>\<open>RecursiveRequired\<close>; reading a property of an
  absent \<^verbatim>\<open>selectedBoard\<close> is the \<^verbatim>\<open>TypeError\<close> JavaScript throws. The result is the
  engine after the assignment to \<^verbatim>\<open>boardsConfig\<close> when the loop returned true.
\<close>

fun reconnect_exact :: "engine \<Rightarrow> Config \<Rightarrow> Board list \<Rightarrow> error + engine option" where
  "reconnect_exact s latest [] = Inr None"
| "reconnect_exact s latest (board # rest) =
     (case selectedBoard latest of
        None \<Rightarrow> Inl TypeError
      | Some lb \<Rightarrow>
          if fqbn lb = fqbn board \<and> name lb = name board
             \<and> Port_sameAs (selectedPort latest) (port board)
          then Inr (Some (set_boardsConfig latest s))
          else reconnect_exact s latest rest)"

text \<open>
  The second loop: the comparison of the protocols reads
  \<^verbatim>\<open>_latestValidBoardsConfig.selectedPort.protocol\<close> only after fqbn and name have matched.
\<close>

fun reconnect_relaxed :: "engine \<Rightarrow> Config \<Rightarrow> Board list \<Rightarrow> error + engine option" where
  "reconnect_relaxed s latest [] = Inr None"
| "reconnect_relaxed s latest (board # rest) =
     (case selectedBoard latest of
        None \<Rightarrow> Inl TypeError
      | Some lb \<Rightarrow>
          if fqbn lb = fqbn board \<and> name lb = name board then
            (case selectedPort latest of
               None \<Rightarrow> Inl TypeError
             | Some lp \<Rightarrow>
                 if Some (protocol lp) = map_option protocol (port board)
                 then Inr (Some (set_boardsConfig (latest\<lparr>selectedPort := port board\<rparr>) s))
                 else reconnect_relaxed s latest rest)
          else reconnect_relaxed s latest rest)"

definition tryReconnect :: "engine \<Rightarrow> error + bool \<times> engine" where
  "tryReconnect s =
     (case latestValidBoardsConfig s of
        None \<Rightarrow> Inr (False, s)
      | Some latest \<Rightarrow>
          if fst (canUploadTo s (Some (boardsConfig s)) None) then Inr (False, s)
          else
            (let candidates = filter (\<lambda>b. state b \<noteq> Some incomplete) (availableBoards s)
             in case reconnect_exact s latest candidates of
                  Inl e \<Rightarrow> Inl e
                | Inr (Some s') \<Rightarrow> Inr (True, s')
                | Inr None \<Rightarrow>
                    (case reconnect_relaxed s latest candidates of
                       Inl e \<Rightarrow> Inl e
                     | Inr (Some s') \<Rightarrow> Inr (True, s')
                     | Inr None \<Rightarrow> Inr (False, s))))"

text \<open>
  The auto-reconnect heuristic in the spec's words: an exact match has the remembered
  board's fqbn and name and the remembered port; a relaxed match has the remembered
  board's fqbn and name and a port of the remembered protocol. The first exact match,
  else the first relaxed match, among the boards that are not incomplete.
\<close>

definition exact_match :: "Config \<Rightarrow> Board \<Rightarrow> bool" where
  "exact_match latest b =
     (case selectedBoard latest of
        None \<Rightarrow> False
      | Some lb \<Rightarrow> fqbn b = fqbn lb \<and> name b = name lb \<and> Port_sameAs (selectedPort latest) (port b))"

definition relaxed_match :: "Config \<Rightarrow> Board \<Rightarrow> bool" where
  "relaxed_match latest b =
     (case selectedBoard latest of
        None \<Rightarrow> False
      | Some lb \<Rightarrow>
          fqbn b = fqbn lb \<and> name b = name lb
          \<and> (case selectedPort latest of
                None \<Rightarrow> False
              | Some lp \<Rightarrow> (case port b of None \<Rightarrow> False | Some p \<Rightarrow> protocol p = protocol lp)))"

definition tryReconnect_spec :: "engine \<Rightarrow> bool \<times> engine" where
  "tryReconnect_spec s =
     (case latestValidBoardsConfig s of
        None \<Rightarrow> (False, s)
      | Some latest \<Rightarrow>
          if uploadable (boardsConfig s) then (False, s)
          else
            (let candidates = filter (\<lambda>b. state b \<noteq> Some incomplete) (availableBoards s)
             in case find (exact_match latest) candidates of
                  Some b \<Rightarrow> (True, set_boardsConfig latest s)
                | None \<Rightarrow>
                    (case find (relaxed_match latest) candidates of
                       Some b \<Rightarrow> (True, set_boardsConfig (latest\<lparr>selectedPort := port b\<rparr>) s)
                     | None \<Rightarrow> (False, s))))"

section \<open>Startup restore\<close>

text \<open>
  \<^verbatim>\<open>loadState\<close>. The two values read from the storage and the configuration that
  \<^verbatim>\<open>BoardsConfig.Config.getConfig\<close> (not among the sources) decodes from the URL of the
  window are parameters.
\<close>

definition loadState :: "Config option \<Rightarrow> Config option \<Rightarrow> Config option \<Rightarrow> engine \<Rightarrow> engine" where
  "loadState storedLatestValidBoardsConfig storedLatest urlConfig s =
     (case storedLatestValidBoardsConfig of
        Some stored \<Rightarrow>
          (let s1 = s\<lparr>latestValidBoardsConfig := Some stored\<rparr>
           in if fst (canUploadTo s1 (latestValidBoardsConfig s1) None)
              then set_boardsConfig stored s1
              else s1)
      | None \<Rightarrow>
          (let storedLatestBoardsConfig = (case storedLatest of None \<Rightarrow> urlConfig | Some c \<Rightarrow> Some c)
           in case storedLatestBoardsConfig of
                Some c \<Rightarrow> set_boardsConfig c (s\<lparr>latestBoardsConfig := Some c\<rparr>)
              | None \<Rightarrow> s))"

section \<open>Package uninstall\<close>

text \<open>The item of a platform event: the package's id and the boards it provides.\<close>

record BoardsPackage =
  package_id :: string
  boards :: "Board list"

text \<open>The object literal \<^verbatim>\<open>{ name: selectedBoard.name }\<close>.\<close>

definition selectedBoardWithoutFqbn :: "Board \<Rightarrow> Board" where
  "selectedBoardWithoutFqbn selectedBoard' =
     \<lparr>name = name selectedBoard', fqbn = None, packageId = None, port = None,
      state = None, selected = None\<rparr>"

definition notifyPlatformUninstalled :: "BoardsPackage \<Rightarrow> engine \<Rightarrow> engine" where
  "notifyPlatformUninstalled item s =
     (case selectedBoard (boardsConfig s) of
        None \<Rightarrow> s
      | Some sb \<Rightarrow>
          if truthy (fqbn sb) then
            (case find (\<lambda>b. name b = name sb) (boards item) of
               None \<Rightarrow> s
             | Some uninstalledBoard \<Rightarrow>
                 if fqbn uninstalledBoard = fqbn sb then
                   (let selectedAvailableBoard =
                          (if AvailableBoard_is sb then Some sb
                           else find (\<lambda>availableBoard. Board_sameAs availableBoard sb)
                                  (availableBoards s));
                        discarded =
                          set_boardsConfig
                            ((boardsConfig s)\<lparr>selectedBoard := Some (selectedBoardWithoutFqbn sb)\<rparr>) s
                    in case selectedAvailableBoard of
                         None \<Rightarrow> discarded
                       | Some ab \<Rightarrow>
                           if selected ab = Some True \<and> state ab = Some recognized then s
                           else discarded)
                 else s)
          else s)"

section \<open>Ordering of the available boards\<close>

text \<open>
  The relational operators of JavaScript on two optional enum values: a comparison with
  \<^verbatim>\<open>undefined\<close> is false.
\<close>

definition State_less :: "State option \<Rightarrow> State option \<Rightarrow> bool" where
  "State_less l r =
     (case l of
        None \<Rightarrow> False
      | Some x \<Rightarrow> (case r of None \<Rightarrow> False | Some y \<Rightarrow> State_value x < State_value y))"

text \<open>
  \<^verbatim>\<open>AvailableBoard.compare\<close>. \<^verbatim>\<open>naturalCompare\<close> is imported from \<^verbatim>\<open>common/utils\<close>, which
  is not among the sources: it is the parameter \<open>ncmp\<close>. It receives
  \<^verbatim>\<open>left.port?.address\<close>, which is \<^verbatim>\<open>undefined\<close> for a board without a port.
\<close>

definition compare :: "(string option \<Rightarrow> string option \<Rightarrow> int) \<Rightarrow> Board \<Rightarrow> Board \<Rightarrow> int" where
  "compare ncmp left right =
     (let lp = map_option protocol (port left);
          rp = map_option protocol (port right)
      in if lp = Some ''serial'' \<and> rp \<noteq> Some ''serial'' then - 1
         else if lp \<noteq> Some ''serial'' \<and> rp = Some ''serial'' then 1
         else if lp = Some ''network'' \<and> rp \<noteq> Some ''network'' then - 1
         else if lp \<noteq> Some ''network'' \<and> rp = Some ''network'' then 1
         else if lp = rp then
           (if State_less (state left) (state right) then - 1
            else if State_less (state right) (state left) then 1
            else ncmp (map_option address (port left)) (map_option address (port right)))
         else ncmp (map_option address (port left)) (map_option address (port right)))"

text \<open>
  \<^verbatim>\<open>Array.prototype.sort\<close> with a comparator. The language fixes the result for a
  consistent comparator: the stable sorted permutation, which insertion from the right
  computes. For an inconsistent comparator the language leaves the order to the
  implementation, and only the fact that the result is a permutation is used.
\<close>

fun insert_by :: "('a \<Rightarrow> 'a \<Rightarrow> int) \<Rightarrow> 'a \<Rightarrow> 'a list \<Rightarrow> 'a list" where
  "insert_by cmp x [] = [x]"
| "insert_by cmp x (y # ys) = (if cmp x y \<le> 0 then x # y # ys else y # insert_by cmp x ys)"

fun Array_sort :: "('a \<Rightarrow> 'a \<Rightarrow> int) \<Rightarrow> 'a list \<Rightarrow> 'a list" where
  "Array_sort cmp [] = []"
| "Array_sort cmp (x # xs) = insert_by cmp x (Array_sort cmp xs)"

text \<open>
  The order of the spec, in its words: serial entries first, network entries next, every
  other protocol last; within one class recognized before guessed before incomplete;
  last the natural comparison of the port addresses.
\<close>

definition protocol_class :: "Board \<Rightarrow> nat" where
  "protocol_class b =
     (if map_option protocol (port b) = Some ''serial'' then 0
      else if map_option protocol (port b) = Some ''network'' then 1
      else 2)"

definition state_class :: "Board \<Rightarrow> nat" where
  "state_class b = (case state b of None \<Rightarrow> 3 | Some st \<Rightarrow> State_value st)"

definition precedes :: "(string option \<Rightarrow> string option \<Rightarrow> int) \<Rightarrow> Board \<Rightarrow> Board \<Rightarrow> bool" where
  "precedes ncmp l r =
     (protocol_class l < protocol_class r
      \<or> (protocol_class l = protocol_class r
          \<and> (state_class l < state_class r
              \<or> (state_class l = state_class r
                  \<and> ncmp (map_option address (port l)) (map_option address (port r)) \<le> 0))))"

text \<open>
  Modelled from the spec: \<^verbatim>\<open>naturalCompare\<close> (\<^verbatim>\<open>common/utils\<close> is not among the sources).
  A natural (human) string comparison: a maximal run of decimal digits counts as the
  number it writes, every other character by its code, and the first difference decides.
  The spec does not say how an absent address compares; here it compares as the empty
  string.
\<close>

datatype chunk = Num nat | Chr char

definition is_digit :: "char \<Rightarrow> bool" where
  "is_digit c = (48 \<le> (of_char c :: nat) \<and> (of_char c :: nat) \<le> 57)"

definition flush :: "nat option \<Rightarrow> chunk list" where
  "flush acc = (case acc of None \<Rightarrow> [] | Some n \<Rightarrow> [Num n])"

fun chunks :: "nat option \<Rightarrow> string \<Rightarrow> chunk list" where
  "chunks acc [] = flush acc"
| "chunks acc (c # cs) =
     (if is_digit c
      then chunks (Some (10 * (case acc of None \<Rightarrow> 0 | Some n \<Rightarrow> n) + (of_char c - 48))) cs
      else flush acc @ Chr c # chunks None cs)"

fun compare_chunk :: "chunk \<Rightarrow> chunk \<Rightarrow> int" where
  "compare_chunk (Num a) (Num b) = (if a < b then - 1 else if b < a then 1 else 0)"
| "compare_chunk (Chr a) (Chr b) =
     (if (of_char a :: nat) < of_char b then - 1 else if (of_char b :: nat) < of_char a then 1 else 0)"
| "compare_chunk (Num a) (Chr b) = (if (of_char b :: nat) < 48 then 1 else - 1)"
| "compare_chunk (Chr a) (Num b) = (if (of_char a :: nat) < 48 then - 1 else 1)"

fun compare_chunks :: "chunk list \<Rightarrow> chunk list \<Rightarrow> int" where
  "compare_chunks [] [] = 0"
| "compare_chunks [] (b # bs) = - 1"
| "compare_chunks (a # as) [] = 1"
| "compare_chunks (a # as) (b # bs) =
     (if compare_chunk a b = 0 then compare_chunks as bs else compare_chunk a b)"

definition naturalCompare :: "string option \<Rightarrow> string option \<Rightarrow> int" where
  "naturalCompare left right =
     compare_chunks (chunks None (case left of None \<Rightarrow> [] | Some l \<Rightarrow> l))
       (chunks None (case right of None \<Rightarrow> [] | Some r \<Rightarrow> r))"

section \<open>Reconciliation\<close>

text \<open>
  The first step of \<^verbatim>\<open>reconcileAvailableBoards\<close>: a selected port that is no longer
  available is unset through \<^verbatim>\<open>setBoardsConfig\<close>, and the change is announced.
\<close>

definition unsetPort :: "engine \<Rightarrow> engine" where
  "unsetPort s =
     (case selectedPort (boardsConfig s) of
        None \<Rightarrow> s
      | Some sp \<Rightarrow>
          if list_ex (\<lambda>p. Port_sameAs (Some p) (selectedPort (boardsConfig s))) (availablePorts s)
          then s
          else
            (let s1 = setBoardsConfig
                        \<lparr>selectedBoard = selectedBoard (boardsConfig s), selectedPort = None\<rparr> s
             in s1\<lparr>fired := fired s1 @ [BoardsConfigChanged (boardsConfig s1)]\<rparr>))"

text \<open>
  The ports that get an entry: every serial port, and every other port whose address is
  the address of the port of an attached board.
\<close>

definition availableBoardPorts :: "engine \<Rightarrow> Port list" where
  "availableBoardPorts s =
     (let attached = filter (\<lambda>b. port b \<noteq> None) (attachedBoards s)
      in filter
           (\<lambda>p. protocol p = ''serial''
                \<or> list_ex (\<lambda>board. map_option address (port board) = Some (address p)) attached)
           (availablePorts s))"

text \<open>
  The body of the loop over the ports. \<open>lastSelectedBoardOnPort\<close> is the storage read of
  \<^verbatim>\<open>getLastSelectedBoardOnPort\<close>, whose key is made of the port's address alone.
\<close>

definition resolveBoard :: "(string \<Rightarrow> Board option) \<Rightarrow> engine \<Rightarrow> Port \<Rightarrow> Board" where
  "resolveBoard lastSelectedBoardOnPort s boardPort =
     (let attached = filter (\<lambda>b. port b \<noteq> None) (attachedBoards s)
      in case find (\<lambda>b. Port_sameAs (Some boardPort) (port b)) attached of
           Some board \<Rightarrow>
             board\<lparr>state := Some recognized,
                   selected := Some (Config_sameAs (boardsConfig s) board),
                   port := Some boardPort\<rparr>
         | None \<Rightarrow>
             (case lastSelectedBoardOnPort (address boardPort) of
                Some lastSelectedBoard \<Rightarrow>
                  lastSelectedBoard\<lparr>state := Some guessed,
                    selected := Some (Config_sameAs (boardsConfig s) lastSelectedBoard),
                    port := Some boardPort\<rparr>
              | None \<Rightarrow>
                  \<lparr>name = ''Unknown'', fqbn = None, packageId = None, port = Some boardPort,
                   state = Some incomplete, selected = None\<rparr>))"

text \<open>\<^verbatim>\<open>Array.prototype.findIndex\<close>, and \<^verbatim>\<open>splice(found, 1)\<close> for an index that is not negative.\<close>

fun findIndex :: "('a \<Rightarrow> bool) \<Rightarrow> 'a list \<Rightarrow> int" where
  "findIndex P [] = - 1"
| "findIndex P (x # xs) =
     (if P x then 0 else (let i = findIndex P xs in if i < 0 then - 1 else i + 1))"

definition splice1 :: "int \<Rightarrow> 'a list \<Rightarrow> 'a list" where
  "splice1 found xs = take (nat found) xs @ drop (nat found + 1) xs"

text \<open>The entry that carries the selection when no entry of a port is selected.\<close>

definition selectedEntry :: "Config \<Rightarrow> Board \<Rightarrow> Board" where
  "selectedEntry config sb =
     sb\<lparr>port := selectedPort config, selected := Some True, state := Some incomplete\<rparr>"

definition injectSelected :: "Config \<Rightarrow> Board list \<Rightarrow> Board list" where
  "injectSelected config bs =
     (case selectedBoard config of
        None \<Rightarrow> bs
      | Some sb \<Rightarrow>
          if list_ex (\<lambda>b. selected b = Some True) bs then bs
          else
            (let found = findIndex
                   (\<lambda>board. map_option address (port board) = map_option address (selectedPort config))
                   bs;
                 kept = (if 0 \<le> found then splice1 found bs else bs)
             in kept @ [selectedEntry config sb]))"

text \<open>
  The list \<^verbatim>\<open>availableBoards\<close> that a pass computes, sorted, from the engine after the
  first step.
\<close>

definition reconciled :: "(string option \<Rightarrow> string option \<Rightarrow> int) \<Rightarrow> (string \<Rightarrow> Board option) \<Rightarrow> engine \<Rightarrow> Board list" where
  "reconciled ncmp lastSelectedBoardOnPort s =
     Array_sort (compare ncmp)
       (injectSelected (boardsConfig s)
          (map (resolveBoard lastSelectedBoardOnPort s) (availableBoardPorts s)))"

text \<open>
  The comparison with the list of the pass before: the lengths, then entry by entry the
  fqbn, the comparator and the selected flag.
\<close>

definition hasChanged :: "(string option \<Rightarrow> string option \<Rightarrow> int) \<Rightarrow> Board list \<Rightarrow> Board list \<Rightarrow> bool" where
  "hasChanged ncmp availableBoards' currentAvailableBoards =
     (length availableBoards' \<noteq> length currentAvailableBoards
      \<or> list_ex
           (\<lambda>(left, right).
              fqbn left \<noteq> fqbn right \<or> compare ncmp left right \<noteq> 0
              \<or> selected left \<noteq> selected right)
           (zip availableBoards' currentAvailableBoards))"

definition reconcileAvailableBoards :: "(string option \<Rightarrow> string option \<Rightarrow> int) \<Rightarrow> (string \<Rightarrow> Board option) \<Rightarrow> engine \<Rightarrow> engine" where
  "reconcileAvailableBoards ncmp lastSelectedBoardOnPort s =
     (let s1 = unsetPort s;
          availableBoards' = reconciled ncmp lastSelectedBoardOnPort s1
      in if hasChanged ncmp availableBoards' (availableBoards s1)
         then s1\<lparr>availableBoards := availableBoards',
                 fired := fired s1 @ [AvailableBoardsChanged availableBoards']\<rparr>
         else s1)"

section \<open>Waiting for a board\<close>

text \<open>
  \<^verbatim>\<open>waitUntilAvailable\<close> as a machine over the events of the page's event loop. The state
  is the state of the promise the call returns (the race of the two tasks), whether the
  listener the call registered on \<^verbatim>\<open>onAvailableBoardsChanged\<close> is still registered, and
  whether the callback given to \<^verbatim>\<open>setTimeout\<close> is still scheduled.
\<close>

datatype rejection = Timeout int

datatype promise_state = Pending | Resolved | Rejected rejection

datatype wait_event = BoardsChanged "Board list" | TimerElapsed

record waiting =
  promise :: promise_state
  listener :: bool
  timer :: bool

text \<open>The local function \<^verbatim>\<open>find\<close>.\<close>

definition find_needle :: "Board \<Rightarrow> Board list \<Rightarrow> Board option" where
  "find_needle needle haystack =
     find (\<lambda>board. Board_equals needle board \<and> Port_sameAs (port needle) (port board)) haystack"

text \<open>
  The call itself: the timer is scheduled when \<^verbatim>\<open>!!timeout && timeout > 0\<close>; the listener
  is registered unless a candidate is found at once.
\<close>

definition waitUntilAvailable :: "Board \<Rightarrow> int option \<Rightarrow> engine \<Rightarrow> waiting" where
  "waitUntilAvailable what timeout s =
     (let scheduled = (case timeout of None \<Rightarrow> False | Some t \<Rightarrow> t \<noteq> 0 \<and> 0 < t)
      in case find_needle what (availableBoards s) of
           Some candidate \<Rightarrow> \<lparr>promise = Resolved, listener = False, timer = scheduled\<rparr>
         | None \<Rightarrow> \<lparr>promise = Pending, listener = True, timer = scheduled\<rparr>)"

text \<open>
  One event. The listener disposes itself and resolves when the new list holds a
  candidate; the timer's callback rejects. Settling a promise that is settled has no
  effect.
\<close>

fun wait_step :: "Board \<Rightarrow> int option \<Rightarrow> waiting \<Rightarrow> wait_event \<Rightarrow> waiting" where
  "wait_step what timeout w (BoardsChanged availableBoards') =
     (if listener w then
        (case find_needle what availableBoards' of
           Some candidate \<Rightarrow>
             w\<lparr>listener := False,
               promise := (if promise w = Pending then Resolved else promise w)\<rparr>
         | None \<Rightarrow> w)
      else w)"
| "wait_step what timeout w TimerElapsed =
     (if timer w then
        (case timeout of
           None \<Rightarrow> w
         | Some t \<Rightarrow>
             w\<lparr>timer := False,
               promise := (if promise w = Pending then Rejected (Timeout t) else promise w)\<rparr>)
      else w)"

definition wait_run :: "Board \<Rightarrow> int option \<Rightarrow> engine \<Rightarrow> wait_event list \<Rightarrow> waiting" where
  "wait_run what timeout s events = foldl (wait_step what timeout) (waitUntilAvailable what timeout s) events"

section \<open>Example values\<close>

text \<open>The boards, ports and configurations of the spec's examples.\<close>

definition serial_port :: "string \<Rightarrow> Port" where
  "serial_port a = \<lparr>address = a, protocol = ''serial''\<rparr>"

definition plain_board :: "string \<Rightarrow> string option \<Rightarrow> Board" where
  "plain_board n f =
     \<lparr>name = n, fqbn = f, packageId = None, port = None, state = None, selected = None\<rparr>"

definition uno :: Board where
  "uno = plain_board ''Uno'' (Some ''arduino:avr:uno'')"

definition uno_on_COM5 :: Config where
  "uno_on_COM5 = \<lparr>selectedBoard = Some uno, selectedPort = Some (serial_port ''COM5'')\<rparr>"

definition uno_without_fqbn_on_COM5 :: Config where
  "uno_without_fqbn_on_COM5 =
     \<lparr>selectedBoard = Some (plain_board ''Uno'' None), selectedPort = Some (serial_port ''COM5'')\<rparr>"

definition uno_on_COM10 :: Config where
  "uno_on_COM10 = \<lparr>selectedBoard = Some uno, selectedPort = Some (serial_port ''COM10'')\<rparr>"

definition empty_fqbn_uno_on_COM5 :: Config where
  "empty_fqbn_uno_on_COM5 =
     \<lparr>selectedBoard = Some (plain_board ''Uno'' (Some [])),
      selectedPort = Some (serial_port ''COM5'')\<rparr>"

text \<open>An engine that remembers the Uno on COM5 and now sees it, recognized, on COM10.\<close>

definition reenumerated :: engine where
  "reenumerated =
     init_engine
       \<lparr>latestValidBoardsConfig := Some uno_on_COM5,
        availableBoards :=
          [uno\<lparr>port := Some (serial_port ''COM10''), state := Some recognized,
               selected := Some False\<rparr>]\<rparr>"

definition avr_package :: BoardsPackage where
  "avr_package = \<lparr>package_id = ''arduino:avr'', boards = [uno]\<rparr>"

text \<open>A package whose board has the Uno's fqbn under another name.\<close>

definition renamed_package :: BoardsPackage where
  "renamed_package =
     \<lparr>package_id = ''arduino:avr'',
      boards = [plain_board ''Arduino Uno'' (Some ''arduino:avr:uno'')]\<rparr>"

definition live_uno :: Board where
  "live_uno =
     uno\<lparr>port := Some (serial_port ''COM5''), state := Some recognized, selected := Some True\<rparr>"

definition uno_selected :: engine where
  "uno_selected = init_engine\<lparr>boardsConfig := uno_on_COM5\<rparr>"

definition uno_selected_live :: engine where
  "uno_selected_live = init_engine\<lparr>boardsConfig := uno_on_COM5, availableBoards := [live_uno]\<rparr>"

text \<open>The target of a wait: the Uno with its port.\<close>

definition uno_at_COM5 :: Board where
  "uno_at_COM5 = uno\<lparr>port := Some (serial_port ''COM5'')\<rparr>"

text \<open>Nothing remembered for any port.\<close>

definition no_memory :: "string \<Rightarrow> Board option" where
  "no_memory a = None"

text \<open>
  The four boards of the spec's sorting example, with the ports listed in the reverse of
  the expected order: boards attached on A, C and D, and a board remembered for B.
\<close>

definition four_boards :: engine where
  "four_boards =
     init_engine
       \<lparr>availablePorts :=
          [\<lparr>address = ''D'', protocol = ''usb''\<rparr>, \<lparr>address = ''C'', protocol = ''network''\<rparr>,
           serial_port ''B'', serial_port ''A''],
        attachedBoards :=
          [(plain_board ''d'' (Some ''v:a:d''))\<lparr>port := Some \<lparr>address = ''D'', protocol = ''usb''\<rparr>\<rparr>,
           (plain_board ''c'' (Some ''v:a:c''))\<lparr>port := Some \<lparr>address = ''C'', protocol = ''network''\<rparr>\<rparr>,
           (plain_board ''a'' (Some ''v:a:a''))\<lparr>port := Some (serial_port ''A'')\<rparr>]\<rparr>"

definition B_memory :: "string \<Rightarrow> Board option" where
  "B_memory a = (if a = ''B'' then Some (plain_board ''b'' (Some ''v:a:b'')) else None)"

text \<open>
  Two ports of two protocols that are neither serial nor network: a recognized board on
  the second, and the selection, which no attached board backs, on the first.
\<close>

definition other_protocols :: engine where
  "other_protocols =
     init_engine
       \<lparr>boardsConfig :=
          \<lparr>selectedBoard = Some uno, selectedPort = Some \<lparr>address = ''usb1'', protocol = ''dfu''\<rparr>\<rparr>,
        availablePorts :=
          [\<lparr>address = ''usb1'', protocol = ''dfu''\<rparr>, \<lparr>address = ''usb2'', protocol = ''teensy''\<rparr>],
        attachedBoards :=
          [(plain_board ''Teensy'' (Some ''teensy:avr:teensy40''))
             \<lparr>port := Some \<lparr>address = ''usb2'', protocol = ''teensy''\<rparr>\<rparr>]\<rparr>"

text \<open>
  The same with a third port, of the first protocol, and a recognized board on it; and
  the three entries the pass computes for it.
\<close>

definition three_others :: engine where
  "three_others =
     init_engine
       \<lparr>boardsConfig :=
          \<lparr>selectedBoard = Some uno, selectedPort = Some \<lparr>address = ''usb1'', protocol = ''dfu''\<rparr>\<rparr>,
        availablePorts :=
          [\<lparr>address = ''usb1'', protocol = ''dfu''\<rparr>, \<lparr>address = ''usb2'', protocol = ''teensy''\<rparr>,
           \<lparr>address = ''usb3'', protocol = ''dfu''\<rparr>],
        attachedBoards :=
          [(plain_board ''Teensy'' (Some ''teensy:avr:teensy40''))
             \<lparr>port := Some \<lparr>address = ''usb2'', protocol = ''teensy''\<rparr>\<rparr>,
           (plain_board ''Zero'' (Some ''arduino:samd:zero''))
             \<lparr>port := Some \<lparr>address = ''usb3'', protocol = ''dfu''\<rparr>\<rparr>]\<rparr>"

definition selected_on_usb1 :: Board where
  "selected_on_usb1 =
     uno\<lparr>port := Some \<lparr>address = ''usb1'', protocol = ''dfu''\<rparr>, selected := Some True,
         state := Some incomplete\<rparr>"

definition teensy_on_usb2 :: Board where
  "teensy_on_usb2 =
     \<lparr>name = ''Teensy'', fqbn = Some ''teensy:avr:teensy40'', packageId = None,
      port = Some \<lparr>address = ''usb2'', protocol = ''teensy''\<rparr>,
      state = Some recognized, selected = Some False\<rparr>"

definition zero_on_usb3 :: Board where
  "zero_on_usb3 =
     \<lparr>name = ''Zero'', fqbn = Some ''arduino:samd:zero'', packageId = None,
      port = Some \<lparr>address = ''usb3'', protocol = ''dfu''\<rparr>,
      state = Some recognized, selected = Some False\<rparr>"

text \<open>One address under two protocols, with the Uno attached on the serial one.\<close>

definition shared_address :: engine where
  "shared_address =
     init_engine
       \<lparr>availablePorts := [serial_port ''COM5'', \<lparr>address = ''COM5'', protocol = ''usb''\<rparr>],
        attachedBoards := [uno_at_COM5]\<rparr>"

text \<open>
  Two serial ports without attached boards, the Uno selected on COM5, and for both ports
  the remembered board is the Uno as it was selected on COM5, its port included (what
  the relaxed reconnect to COM10 saves for COM10).
\<close>

definition two_serial :: engine where
  "two_serial =
     init_engine
       \<lparr>boardsConfig := uno_on_COM5,
        availablePorts := [serial_port ''COM5'', serial_port ''COM10'']\<rparr>"

definition stale_memory :: "string \<Rightarrow> Board option" where
  "stale_memory a = (if a = ''COM5'' \<or> a = ''COM10'' then Some uno_at_COM5 else None)"

text \<open>The Uno selected on COM5, the port present, and no board attached or remembered.\<close>

definition uno_absent :: engine where
  "uno_absent = init_engine\<lparr>boardsConfig := uno_on_COM5, availablePorts := [serial_port ''COM5'']\<rparr>"

text \<open>The Uno selected on COM5 and attached there; COM5 remembers it.\<close>

definition uno_attached :: engine where
  "uno_attached =
     init_engine
       \<lparr>boardsConfig := uno_on_COM5,
        availablePorts := [serial_port ''COM5'', serial_port ''COM10''],
        attachedBoards := [uno_at_COM5]\<rparr>"

definition COM5_memory :: "string \<Rightarrow> Board option" where
  "COM5_memory a = (if a = ''COM5'' then Some uno_at_COM5 else None)"

section \<open>Validation and the configuration setter\<close>

lemma canVerify_Some:
  "canVerify s (Some c) opts =
     (selectedBoard c \<noteq> None,
      if selectedBoard c = None \<and> \<not> (case opts of None \<Rightarrow> True | Some opt \<Rightarrow> silent opt)
      then [NoneSelected] else [])"
  by (simp add: canVerify_def split: option.splits)

lemma canUploadTo_silent: "fst (canUploadTo s (Some c) None) = uploadable c"
  by (simp add: canUploadTo_def canVerify_def uploadable_def split: option.splits)

lemma setBoardsConfig_fields:
  "boardsConfig (setBoardsConfig c s) = c"
  "latestBoardsConfig (setBoardsConfig c s) = Some c"
  "latestValidBoardsConfig (setBoardsConfig c s)
     = (if uploadable c then Some c else latestValidBoardsConfig s)"
  "attachedBoards (setBoardsConfig c s) = attachedBoards s"
  "availablePorts (setBoardsConfig c s) = availablePorts s"
  "availableBoards (setBoardsConfig c s) = availableBoards s"
  "fired (setBoardsConfig c s) = fired s"
  by (simp_all add: setBoardsConfig_def Let_def canUploadTo_silent)

lemma set_all_latestValid:
  "latestValidBoardsConfig (set_all cs s) = Some v \<Longrightarrow>
     (v \<in> set cs \<and> uploadable v) \<or> latestValidBoardsConfig s = Some v"
proof (induction cs arbitrary: s)
  case Nil
  then show ?case by (simp add: set_all_def)
next
  case (Cons c cs)
  from Cons.prems have "latestValidBoardsConfig (set_all cs (setBoardsConfig c s)) = Some v"
    by (simp add: set_all_def set_boardsConfig_def)
  from Cons.IH[OF this] show ?case
    by (auto simp: setBoardsConfig_fields split: if_splits)
qed

text \<open>
  C2. Every configuration set stores the new configuration as \<open>latestBoardsConfig\<close>, and
  stores it as \<open>latestValidBoardsConfig\<close> exactly when it is uploadable; a configuration
  whose board has no fqbn leaves \<open>latestValidBoardsConfig\<close> as it was. After any sequence
  of sets, a value of \<open>latestValidBoardsConfig\<close> that was not there before is one of the
  configurations set, and has a board with a non-empty fqbn and a port.
\<close>

theorem setBoardsConfig_latest:
  "latestBoardsConfig (setBoardsConfig c s) = Some c
   \<and> latestValidBoardsConfig (setBoardsConfig c s)
       = (if uploadable c then Some c else latestValidBoardsConfig s)
   \<and> (\<forall>b. selectedBoard c = Some b \<and> \<not> truthy (fqbn b) \<longrightarrow>
         latestValidBoardsConfig (setBoardsConfig c s) = latestValidBoardsConfig s)
   \<and> (\<forall>cs v. latestValidBoardsConfig (set_all cs s) = Some v
         \<and> latestValidBoardsConfig s \<noteq> Some v \<longrightarrow>
         v \<in> set cs
         \<and> (\<exists>b p f. selectedBoard v = Some b \<and> selectedPort v = Some p
               \<and> fqbn b = Some f \<and> f \<noteq> []))"
proof -
  have seq: "v \<in> set cs \<and> (\<exists>b p f. selectedBoard v = Some b \<and> selectedPort v = Some p
               \<and> fqbn b = Some f \<and> f \<noteq> [])"
    if "latestValidBoardsConfig (set_all cs s) = Some v" "latestValidBoardsConfig s \<noteq> Some v"
    for cs v
  proof -
    from set_all_latestValid[OF that(1)] that(2) have "v \<in> set cs" "uploadable v" by auto
    then show ?thesis
      by (auto simp: uploadable_def truthy_def split: option.splits)
  qed
  show ?thesis
    using seq by (auto simp: setBoardsConfig_fields uploadable_def split: option.splits)
qed

theorem setBoardsConfig_latest_witness:
  "selectedBoard uno_without_fqbn_on_COM5 = Some (plain_board ''Uno'' None)
   \<and> \<not> truthy (fqbn (plain_board ''Uno'' None))
   \<and> latestBoardsConfig (set_all [uno_on_COM5, uno_without_fqbn_on_COM5] init_engine)
       = Some uno_without_fqbn_on_COM5
   \<and> latestValidBoardsConfig (set_all [uno_on_COM5, uno_without_fqbn_on_COM5] init_engine)
       = Some uno_on_COM5"
  using setBoardsConfig_latest [of uno_without_fqbn_on_COM5 "setBoardsConfig uno_on_COM5 init_engine"]
    setBoardsConfig_latest [of uno_on_COM5 init_engine]
  by (simp add: set_all_def set_boardsConfig_def uploadable_def truthy_def
      uno_on_COM5_def uno_without_fqbn_on_COM5_def uno_def plain_board_def)

lemma set_boardsConfig_fields:
  "boardsConfig (set_boardsConfig c s) = c"
  "latestBoardsConfig (set_boardsConfig c s) = Some c"
  "latestValidBoardsConfig (set_boardsConfig c s)
     = (if uploadable c then Some c else latestValidBoardsConfig s)"
  "availableBoards (set_boardsConfig c s) = availableBoards s"
  by (simp_all add: set_boardsConfig_def setBoardsConfig_fields)

text \<open>
  C10, as the code has it. A call of \<^verbatim>\<open>canVerify\<close> with an undefined configuration takes
  the parameter's default, the current configuration: it returns whether the current
  configuration has a selected board, and it shows the warning exactly when the current
  configuration has none and \<^verbatim>\<open>silent\<close> is false. The branch for a falsy configuration
  is not reached by an undefined argument.
\<close>

theorem canVerify_default:
  "canVerify s None opts = canVerify s (Some (boardsConfig s)) opts
   \<and> fst (canVerify s None opts) = (selectedBoard (boardsConfig s) \<noteq> None)
   \<and> snd (canVerify s None opts)
       = (if selectedBoard (boardsConfig s) = None
             \<and> \<not> (case opts of None \<Rightarrow> True | Some opt \<Rightarrow> silent opt)
          then [NoneSelected] else [])"
  by (simp add: canVerify_def split: option.splits)

text \<open>
  C10 as stated fails on the engine as constructed: with no board selected and
  \<^verbatim>\<open>silent\<close> false the call with an undefined configuration shows the warning; with a
  board selected it returns true.
\<close>

theorem canVerify_undefined_counterexample:
  "canVerify init_engine None (Some \<lparr>silent = False\<rparr>) = (False, [NoneSelected])
   \<and> canVerify uno_selected None (Some \<lparr>silent = False\<rparr>) = (True, [])"
  by (simp add: canVerify_def init_engine_def uno_selected_def uno_on_COM5_def)

section \<open>Startup restore\<close>

text \<open>
  C3, as the code has it. A stored valid configuration that is uploadable is adopted.
  The fallback is taken when no valid configuration is stored: the stored latest
  configuration, or without one the configuration of the URL, becomes the current one;
  with neither nothing changes. A stored valid configuration that is not uploadable is
  kept as \<open>latestValidBoardsConfig\<close> and nothing is adopted.
\<close>

theorem loadState_priority:
  "(uploadable v \<longrightarrow> boardsConfig (loadState (Some v) l u s) = v)
   \<and> boardsConfig (loadState None (Some l') u s) = l'
   \<and> boardsConfig (loadState None None (Some u') s) = u'
   \<and> loadState None None None s = s
   \<and> (\<not> uploadable v \<longrightarrow>
         loadState (Some v) l u s = s\<lparr>latestValidBoardsConfig := Some v\<rparr>)"
  by (simp add: loadState_def canUploadTo_silent set_boardsConfig_fields)

theorem loadState_priority_witness:
  "uploadable uno_on_COM5
   \<and> boardsConfig (loadState (Some uno_on_COM5) (Some uno_without_fqbn_on_COM5) None init_engine)
       = uno_on_COM5
   \<and> \<not> uploadable empty_fqbn_uno_on_COM5
   \<and> boardsConfig (loadState (Some empty_fqbn_uno_on_COM5) (Some uno_on_COM5) None init_engine)
       = boardsConfig init_engine"
  using loadState_priority [of uno_on_COM5 "Some uno_without_fqbn_on_COM5" None init_engine]
    loadState_priority [of empty_fqbn_uno_on_COM5 "Some uno_on_COM5" None init_engine]
  by (simp add: uploadable_def truthy_def uno_on_COM5_def empty_fqbn_uno_on_COM5_def
      uno_def plain_board_def)

text \<open>
  C3 as stated fails: the stored valid configuration has an empty fqbn and fails
  \<^verbatim>\<open>canUploadTo\<close>, a latest configuration is stored, and the current configuration does
  not become the stored latest one.
\<close>

theorem loadState_counterexample:
  "\<not> fst (canUploadTo init_engine (Some empty_fqbn_uno_on_COM5) None)
   \<and> boardsConfig
       (loadState (Some empty_fqbn_uno_on_COM5) (Some uno_without_fqbn_on_COM5) None init_engine)
     \<noteq> uno_without_fqbn_on_COM5"
  by (simp add: loadState_def canUploadTo_silent uploadable_def truthy_def plain_board_def
      uno_without_fqbn_on_COM5_def empty_fqbn_uno_on_COM5_def init_engine_def)

section \<open>Auto-reconnect\<close>

lemma reconnect_exact_find:
  "selectedBoard latest = Some lb \<Longrightarrow>
   reconnect_exact s latest bs
     = Inr (map_option (\<lambda>b. set_boardsConfig latest s) (find (exact_match latest) bs))"
  by (induction bs) (auto simp: exact_match_def)

lemma reconnect_relaxed_find:
  "selectedBoard latest = Some lb \<Longrightarrow> selectedPort latest = Some lp \<Longrightarrow>
   reconnect_relaxed s latest bs
     = Inr (map_option (\<lambda>b. set_boardsConfig (latest\<lparr>selectedPort := port b\<rparr>) s)
              (find (relaxed_match latest) bs))"
  by (induction bs) (auto simp: relaxed_match_def split: option.splits)

text \<open>
  The sets keep the promise of the field's type: a remembered valid configuration that
  a sequence of sets has stored has its board and its port.
\<close>

lemma set_all_latestValid_required:
  assumes "latestValidBoardsConfig s = None"
    and "latestValidBoardsConfig (set_all cs s) = Some v"
  shows "selectedBoard v \<noteq> None \<and> selectedPort v \<noteq> None"
proof -
  from set_all_latestValid[OF assms(2)] assms(1) have "uploadable v" by simp
  then show ?thesis by (auto simp: uploadable_def split: option.splits)
qed

text \<open>
  C1. When the remembered valid configuration has its board and its port, as its type
  says, \<^verbatim>\<open>tryReconnect\<close> throws nothing and does what the spec's words say: nothing
  without a remembered configuration or with an uploadable current one; else the first
  exact match among the boards that are not incomplete adopts the remembered
  configuration, else the first relaxed match adopts the remembered board with the port
  of the board found, else nothing changes.
\<close>

theorem tryReconnect_refines:
  assumes "\<forall>latest. latestValidBoardsConfig s = Some latest \<longrightarrow>
             selectedBoard latest \<noteq> None \<and> selectedPort latest \<noteq> None"
  shows "tryReconnect s = Inr (tryReconnect_spec s)"
proof (cases "latestValidBoardsConfig s")
  case None
  then show ?thesis by (simp add: tryReconnect_def tryReconnect_spec_def)
next
  case (Some latest)
  with assms obtain lb lp where l: "selectedBoard latest = Some lb" "selectedPort latest = Some lp"
    by auto
  show ?thesis
    using Some
    by (simp add: tryReconnect_def tryReconnect_spec_def canUploadTo_silent Let_def
        reconnect_exact_find[OF l(1)] reconnect_relaxed_find[OF l]
        split: option.splits)
qed

theorem tryReconnect_refines_witness:
  "tryReconnect reenumerated = Inr (True, set_boardsConfig uno_on_COM10 reenumerated)
   \<and> boardsConfig (set_boardsConfig uno_on_COM10 reenumerated) = uno_on_COM10"
  using tryReconnect_refines [of reenumerated]
  by (simp add: tryReconnect_spec_def reenumerated_def init_engine_def uno_on_COM5_def
      uno_on_COM10_def uno_def plain_board_def serial_port_def uploadable_def
      exact_match_def relaxed_match_def Port_sameAs_def set_boardsConfig_fields)

section \<open>Package uninstall\<close>

text \<open>
  C8, as the code has it. With a selected board: nothing changes when its fqbn is falsy,
  when no board of the package has its name, or when the first board of the package
  with its name has another fqbn. When that board has the selected board's fqbn, the
  configuration stays as it is if the selected board is itself an available board that
  is selected and recognized, or is not one and the first available board that is the
  same as it is selected and recognized; and the fqbn is discarded through the setter,
  keeping the name and the port of the selection, if the selected board is an available
  board that is not both, or is not one and no available board that is the same as it
  is selected and recognized.
\<close>

theorem notifyPlatformUninstalled_cases:
  assumes sel: "selectedBoard (boardsConfig s) = Some sb"
  shows
  "(\<not> truthy (fqbn sb) \<or> find (\<lambda>b. name b = name sb) (boards item) = None
       \<longrightarrow> notifyPlatformUninstalled item s = s)
   \<and> (\<forall>u. truthy (fqbn sb) \<and> find (\<lambda>b. name b = name sb) (boards item) = Some u \<longrightarrow>
        (fqbn u \<noteq> fqbn sb \<longrightarrow> notifyPlatformUninstalled item s = s)
        \<and> (fqbn u = fqbn sb \<longrightarrow>
             (AvailableBoard_is sb \<and> selected sb = Some True \<and> state sb = Some recognized
                \<longrightarrow> notifyPlatformUninstalled item s = s)
             \<and> (\<not> AvailableBoard_is sb
                  \<and> (\<exists>ab. find (\<lambda>b. Board_sameAs b sb) (availableBoards s) = Some ab
                         \<and> selected ab = Some True \<and> state ab = Some recognized)
                \<longrightarrow> notifyPlatformUninstalled item s = s)
             \<and> ((AvailableBoard_is sb \<and> \<not> (selected sb = Some True \<and> state sb = Some recognized))
                  \<or> (\<not> AvailableBoard_is sb
                      \<and> \<not> list_ex (\<lambda>b. Board_sameAs b sb \<and> selected b = Some True
                                        \<and> state b = Some recognized) (availableBoards s))
                \<longrightarrow> notifyPlatformUninstalled item s
                      = set_boardsConfig
                          \<lparr>selectedBoard = Some (plain_board (name sb) None),
                           selectedPort = selectedPort (boardsConfig s)\<rparr> s)))"
proof -
  have cfg: "(boardsConfig s)\<lparr>selectedBoard := Some (selectedBoardWithoutFqbn sb)\<rparr>
      = \<lparr>selectedBoard = Some (plain_board (name sb) None), selectedPort = selectedPort (boardsConfig s)\<rparr>"
    by (simp add: selectedBoardWithoutFqbn_def plain_board_def)
  have nofind: "find (\<lambda>b. Board_sameAs b sb) (availableBoards s) = Some ab \<Longrightarrow>
      \<not> list_ex (\<lambda>b. Board_sameAs b sb \<and> selected b = Some True \<and> state b = Some recognized) (availableBoards s)
      \<Longrightarrow> \<not> (selected ab = Some True \<and> state ab = Some recognized)" for ab
    by (auto simp: find_Some_iff list_ex_iff)
  show ?thesis
    using sel nofind
    by (auto simp: notifyPlatformUninstalled_def Let_def cfg split: option.splits)
qed

theorem notifyPlatformUninstalled_cases_witness:
  "boardsConfig (notifyPlatformUninstalled avr_package uno_selected)
     = \<lparr>selectedBoard = Some (plain_board ''Uno'' None), selectedPort = Some (serial_port ''COM5'')\<rparr>
   \<and> notifyPlatformUninstalled avr_package uno_selected_live = uno_selected_live"
  using notifyPlatformUninstalled_cases [of uno_selected uno avr_package]
    notifyPlatformUninstalled_cases [of uno_selected_live uno avr_package]
  by (simp add: avr_package_def init_engine_def uno_on_COM5_def uno_def plain_board_def truthy_def
      AvailableBoard_is_def Board_sameAs_def live_uno_def set_boardsConfig_fields
      uno_selected_def uno_selected_live_def)

text \<open>
  C8 as stated fails: the package provided a board with the selected board's fqbn under
  another name, no available board backs the selection, and the fqbn stays.
\<close>

theorem notifyPlatformUninstalled_counterexample:
  "selectedBoard (boardsConfig uno_selected) = Some uno
   \<and> list_ex (\<lambda>b. fqbn b = fqbn uno) (boards renamed_package)
   \<and> availableBoards uno_selected = []
   \<and> notifyPlatformUninstalled renamed_package uno_selected = uno_selected
   \<and> fqbn uno = Some ''arduino:avr:uno''"
  by (simp add: notifyPlatformUninstalled_def renamed_package_def init_engine_def uno_on_COM5_def
      uno_def plain_board_def truthy_def uno_selected_def)

section \<open>Waiting for a board\<close>

lemma wait_step_settled:
  "promise w \<noteq> Pending \<Longrightarrow> promise (wait_step what timeout w e) = promise w"
  by (cases e) (auto split: option.splits)

lemma wait_steps_settled:
  "promise w \<noteq> Pending \<Longrightarrow> promise (foldl (wait_step what timeout) w es) = promise w"
  by (induction es arbitrary: w) (simp_all add: wait_step_settled)

lemma wait_step_quiet:
  "find_needle what bs = None \<Longrightarrow> wait_step what timeout w (BoardsChanged bs) = w"
  by simp

lemma wait_steps_quiet:
  "\<forall>e\<in>set es. \<exists>bs. e = BoardsChanged bs \<and> find_needle what bs = None \<Longrightarrow>
   foldl (wait_step what timeout) w es = w"
  by (induction es arbitrary: w) auto

lemma wait_step_listening:
  "promise w = Pending \<longrightarrow> listener w \<Longrightarrow>
   promise (wait_step what timeout w e) = Pending \<longrightarrow> listener (wait_step what timeout w e)"
  by (cases e) (auto split: option.splits)

lemma wait_steps_no_timer:
  "TimerElapsed \<notin> set es \<Longrightarrow> promise w = Pending \<longrightarrow> listener w \<Longrightarrow> promise w \<noteq> Rejected r \<Longrightarrow>
   (promise (foldl (wait_step what timeout) w es) = Pending
      \<longrightarrow> listener (foldl (wait_step what timeout) w es))
   \<and> promise (foldl (wait_step what timeout) w es) \<noteq> Rejected r"
proof (induction es arbitrary: w)
  case Nil
  then show ?case by simp
next
  case (Cons e es)
  from Cons.prems obtain bs where e: "e = BoardsChanged bs" by (cases e) auto
  have "promise (wait_step what timeout w e) = Pending \<longrightarrow> listener (wait_step what timeout w e)"
    using Cons.prems(2) by (rule wait_step_listening)
  moreover have "promise (wait_step what timeout w e) \<noteq> Rejected r"
    using Cons.prems(3) e by (auto split: option.splits)
  moreover have "TimerElapsed \<notin> set es" using Cons.prems(1) by simp
  ultimately show ?case using Cons.IH[of "wait_step what timeout w e"] by simp
qed

lemma wait_steps_unarmed:
  "\<not> timer w \<Longrightarrow> promise w = Pending \<Longrightarrow> listener w \<Longrightarrow>
   promise (foldl (wait_step what timeout) w es)
     = (if \<forall>bs. BoardsChanged bs \<in> set es \<longrightarrow> find_needle what bs = None then Pending else Resolved)"
proof (induction es arbitrary: w)
  case Nil
  then show ?case by simp
next
  case (Cons e es)
  show ?case
  proof (cases e)
    case TimerElapsed
    with Cons.prems have "wait_step what timeout w e = w" by simp
    with Cons.IH[OF Cons.prems] TimerElapsed show ?thesis by auto
  next
    case (BoardsChanged bs)
    show ?thesis
    proof (cases "find_needle what bs")
      case None
      with BoardsChanged have "wait_step what timeout w e = w" by simp
      with Cons.IH[OF Cons.prems] BoardsChanged None show ?thesis by auto
    next
      case (Some c)
      with BoardsChanged Cons.prems have "promise (wait_step what timeout w e) = Resolved" by simp
      then have "promise (foldl (wait_step what timeout) (wait_step what timeout w e) es) = Resolved"
        by (simp add: wait_steps_settled)
      with BoardsChanged Some show ?thesis by auto
    qed
  qed
qed

lemma waitUntilAvailable_start:
  "promise (waitUntilAvailable what timeout s)
      = (if find_needle what (availableBoards s) = None then Pending else Resolved)"
  "listener (waitUntilAvailable what timeout s) = (find_needle what (availableBoards s) = None)"
  "timer (waitUntilAvailable what timeout s) = (\<exists>t. timeout = Some t \<and> 0 < t)"
  by (auto simp: waitUntilAvailable_def split: option.splits)

text \<open>
  C9. With a positive timeout, no candidate at the call and none in the lists announced
  before the timer elapses, the promise is rejected with the timeout error, whatever
  follows. With a candidate at the call, or in a list announced before the timer
  elapses, the promise is resolved, whatever follows. Without a timeout, or with one
  that is not positive, the promise is never rejected: it is pending as long as no
  candidate has appeared and resolved from then on. The rejection is a value of its own,
  different from the pending state.
\<close>

theorem waitUntilAvailable_outcome:
  "(0 < t \<and> find_needle what (availableBoards s) = None
      \<and> (\<forall>e\<in>set pre. \<exists>bs. e = BoardsChanged bs \<and> find_needle what bs = None)
      \<longrightarrow> promise (wait_run what (Some t) s (pre @ TimerElapsed # post)) = Rejected (Timeout t))
   \<and> (find_needle what (availableBoards s) \<noteq> None
      \<longrightarrow> promise (wait_run what timeout s events) = Resolved)
   \<and> (TimerElapsed \<notin> set pre \<and> find_needle what bs \<noteq> None
      \<longrightarrow> promise (wait_run what timeout s (pre @ BoardsChanged bs # post)) = Resolved)
   \<and> (timeout = None \<or> (\<exists>t'. timeout = Some t' \<and> t' \<le> 0)
      \<longrightarrow> promise (wait_run what timeout s events)
            = (if find_needle what (availableBoards s) = None
                  \<and> (\<forall>bs'. BoardsChanged bs' \<in> set events \<longrightarrow> find_needle what bs' = None)
               then Pending else Resolved))"
proof (intro conjI impI)
  assume a: "0 < t \<and> find_needle what (availableBoards s) = None
      \<and> (\<forall>e\<in>set pre. \<exists>bs. e = BoardsChanged bs \<and> find_needle what bs = None)"
  let ?w = "waitUntilAvailable what (Some t) s"
  have "foldl (wait_step what (Some t)) ?w pre = ?w"
    using a by (intro wait_steps_quiet) simp
  moreover have "promise (wait_step what (Some t) ?w TimerElapsed) = Rejected (Timeout t)"
    using a by (simp add: waitUntilAvailable_start)
  ultimately show "promise (wait_run what (Some t) s (pre @ TimerElapsed # post)) = Rejected (Timeout t)"
    by (simp add: wait_run_def wait_steps_settled)
next
  assume "find_needle what (availableBoards s) \<noteq> None"
  then have "promise (waitUntilAvailable what timeout s) = Resolved"
    by (simp add: waitUntilAvailable_start)
  then show "promise (wait_run what timeout s events) = Resolved"
    by (simp add: wait_run_def wait_steps_settled)
next
  assume a: "TimerElapsed \<notin> set pre \<and> find_needle what bs \<noteq> None"
  let ?w = "foldl (wait_step what timeout) (waitUntilAvailable what timeout s) pre"
  have inv: "(promise ?w = Pending \<longrightarrow> listener ?w) \<and> promise ?w \<noteq> Rejected r" for r
    using a by (intro wait_steps_no_timer) (simp_all add: waitUntilAvailable_start)
  have "promise (wait_step what timeout ?w (BoardsChanged bs)) = Resolved"
  proof (cases "promise ?w")
    case Pending
    with inv a show ?thesis by auto
  next
    case Resolved
    then have "promise ?w \<noteq> Pending" by simp
    from wait_step_settled[OF this] Resolved show ?thesis by (simp del: wait_step.simps)
  next
    case (Rejected r)
    with inv show ?thesis by blast
  qed
  then show "promise (wait_run what timeout s (pre @ BoardsChanged bs # post)) = Resolved"
    by (simp add: wait_run_def wait_steps_settled)
next
  assume a: "timeout = None \<or> (\<exists>t'. timeout = Some t' \<and> t' \<le> 0)"
  let ?w = "waitUntilAvailable what timeout s"
  have nt: "\<not> timer ?w" using a by (auto simp: waitUntilAvailable_start)
  show "promise (wait_run what timeout s events)
            = (if find_needle what (availableBoards s) = None
                  \<and> (\<forall>bs'. BoardsChanged bs' \<in> set events \<longrightarrow> find_needle what bs' = None)
               then Pending else Resolved)"
  proof (cases "find_needle what (availableBoards s)")
    case None
    then have "promise ?w = Pending" "listener ?w" by (simp_all add: waitUntilAvailable_start)
    from wait_steps_unarmed[OF nt this] None show ?thesis by (simp add: wait_run_def)
  next
    case (Some c)
    then have "promise ?w = Resolved" by (simp add: waitUntilAvailable_start)
    with Some show ?thesis by (simp add: wait_run_def wait_steps_settled)
  qed
qed

theorem waitUntilAvailable_outcome_witness:
  "promise (wait_run uno_at_COM5 (Some 50) init_engine [BoardsChanged [], TimerElapsed, BoardsChanged [live_uno]])
     = Rejected (Timeout 50)
   \<and> promise (wait_run uno_at_COM5 (Some 50) init_engine [BoardsChanged [], BoardsChanged [live_uno], TimerElapsed])
     = Resolved
   \<and> promise (wait_run uno_at_COM5 None init_engine [BoardsChanged [], TimerElapsed])
     = Pending
   \<and> promise (wait_run uno_at_COM5 (Some 50) uno_selected_live [TimerElapsed]) = Resolved"
  using waitUntilAvailable_outcome [where t = 50 and what = uno_at_COM5 and s = init_engine
        and pre = "[BoardsChanged []]" and post = "[BoardsChanged [live_uno]]"]
     waitUntilAvailable_outcome [where what = uno_at_COM5 and s = init_engine
        and timeout = "Some 50" and pre = "[BoardsChanged []]" and bs = "[live_uno]"
        and post = "[TimerElapsed]"]
     waitUntilAvailable_outcome [where what = uno_at_COM5 and s = init_engine
        and timeout = None and events = "[BoardsChanged [], TimerElapsed]"]
     waitUntilAvailable_outcome [where what = uno_at_COM5 and s = uno_selected_live
        and timeout = "Some 50" and events = "[TimerElapsed]"]
  by (simp add: find_needle_def init_engine_def uno_at_COM5_def live_uno_def uno_def plain_board_def
     Board_equals_def Port_sameAs_def serial_port_def uno_selected_live_def)

text \<open>
  C4 fails on the timeout path: after the timer has elapsed and the promise is rejected,
  the listener the call registered is still registered, and stays so while the lists
  announced hold no candidate.
\<close>

theorem waitUntilAvailable_timeout_keeps_listener:
  "promise (wait_run uno_at_COM5 (Some 50) init_engine [TimerElapsed]) = Rejected (Timeout 50)
   \<and> listener (wait_run uno_at_COM5 (Some 50) init_engine [TimerElapsed])
   \<and> listener (wait_run uno_at_COM5 (Some 50) init_engine [TimerElapsed, BoardsChanged []])"
  by (simp add: wait_run_def waitUntilAvailable_def find_needle_def init_engine_def)

section \<open>Sorting with a comparator\<close>

lemma mset_insert_by: "mset (insert_by cmp x xs) = add_mset x (mset xs)"
  by (induction xs) auto

lemma mset_Array_sort: "mset (Array_sort cmp xs) = mset xs"
  by (induction xs) (auto simp: mset_insert_by)

lemma set_Array_sort: "set (Array_sort cmp xs) = set xs"
  by (metis mset_Array_sort set_mset_mset)

lemma set_insert_by: "set (insert_by cmp x xs) = insert x (set xs)"
  by (metis mset_insert_by set_mset_add_mset_insert set_mset_mset)

lemma sorted_wrt_insert_by:
  assumes le: "\<forall>y\<in>set ys. cmp x y \<le> 0 \<longrightarrow> R x y"
    and ge: "\<forall>y\<in>set ys. \<not> cmp x y \<le> 0 \<longrightarrow> R y x"
    and trans: "\<forall>y\<in>set ys. \<forall>z\<in>set ys. R x y \<and> R y z \<longrightarrow> R x z"
    and sorted: "sorted_wrt R ys"
  shows "sorted_wrt R (insert_by cmp x ys)"
  using assms
proof (induction ys)
  case Nil
  then show ?case by simp
next
  case (Cons y ys)
  from Cons.prems(4) have tail: "sorted_wrt R ys" and head: "\<forall>z\<in>set ys. R y z" by simp_all
  have y: "y \<in> set (y # ys)" by simp
  show ?case
  proof (cases "cmp x y \<le> 0")
    case True
    with Cons.prems(1)[rule_format, OF y] have xy: "R x y" by blast
    have "\<forall>z\<in>set ys. R x z"
    proof
      fix z assume z: "z \<in> set ys"
      then have z': "z \<in> set (y # ys)" by simp
      from head z have "R y z" by blast
      with Cons.prems(3)[rule_format, OF y z'] xy show "R x z" by blast
    qed
    with xy True tail head show ?thesis by simp
  next
    case False
    with Cons.prems(2)[rule_format, OF y] have yx: "R y x" by blast
    have 1: "\<forall>y\<in>set ys. cmp x y \<le> 0 \<longrightarrow> R x y" using Cons.prems(1) by auto
    have 2: "\<forall>y\<in>set ys. \<not> cmp x y \<le> 0 \<longrightarrow> R y x" using Cons.prems(2) by auto
    have 3: "\<forall>y\<in>set ys. \<forall>z\<in>set ys. R x y \<and> R y z \<longrightarrow> R x z"
    proof (intro ballI)
      fix a b assume "a \<in> set ys" "b \<in> set ys"
      then have "a \<in> set (y # ys)" "b \<in> set (y # ys)" by simp_all
      with Cons.prems(3) show "R x a \<and> R a b \<longrightarrow> R x b" by blast
    qed
    have "sorted_wrt R (insert_by cmp x ys)"
      using 1 2 3 tail by (rule Cons.IH)
    with yx False head show ?thesis by (simp add: set_insert_by)
  qed
qed

lemma sorted_wrt_Array_sort:
  assumes le: "\<And>x y. x \<in> set xs \<Longrightarrow> y \<in> set xs \<Longrightarrow> cmp x y \<le> 0 \<Longrightarrow> R x y"
    and ge: "\<And>x y. x \<in> set xs \<Longrightarrow> y \<in> set xs \<Longrightarrow> \<not> cmp x y \<le> 0 \<Longrightarrow> R y x"
    and trans: "\<And>x y z. x \<in> set xs \<Longrightarrow> y \<in> set xs \<Longrightarrow> z \<in> set xs \<Longrightarrow> R x y \<Longrightarrow> R y z \<Longrightarrow> R x z"
  shows "sorted_wrt R (Array_sort cmp xs)"
  using assms
proof (induction xs)
  case Nil
  show ?case by simp
next
  case (Cons x xs)
  have tail: "sorted_wrt R (Array_sort cmp xs)"
  proof (rule Cons.IH)
    fix a b assume "a \<in> set xs" "b \<in> set xs" "cmp a b \<le> 0"
    then show "R a b" using Cons.prems(1)[of a b] by simp
  next
    fix a b assume "a \<in> set xs" "b \<in> set xs" "\<not> cmp a b \<le> 0"
    then show "R b a" using Cons.prems(2)[of a b] by simp
  next
    fix a b c assume "a \<in> set xs" "b \<in> set xs" "c \<in> set xs" "R a b" "R b c"
    then show "R a c" using Cons.prems(3)[of a b c] by simp
  qed
  have a: "\<forall>y\<in>set (Array_sort cmp xs). cmp x y \<le> 0 \<longrightarrow> R x y"
    using Cons.prems(1)[of x] by (simp add: set_Array_sort)
  have b: "\<forall>y\<in>set (Array_sort cmp xs). \<not> cmp x y \<le> 0 \<longrightarrow> R y x"
    using Cons.prems(2)[of x] by (simp add: set_Array_sort)
  have c: "\<forall>y\<in>set (Array_sort cmp xs). \<forall>z\<in>set (Array_sort cmp xs). R x y \<and> R y z \<longrightarrow> R x z"
  proof (intro ballI impI)
    fix y z assume "y \<in> set (Array_sort cmp xs)" "z \<in> set (Array_sort cmp xs)" "R x y \<and> R y z"
    then show "R x z" using Cons.prems(3)[of x y z] by (simp add: set_Array_sort)
  qed
  show ?case
    using sorted_wrt_insert_by[where cmp = cmp and R = R and x = x and ys = "Array_sort cmp xs",
        OF a b c tail]
    by simp
qed

lemma State_less_class:
  "state l \<noteq> None \<Longrightarrow> state r \<noteq> None \<Longrightarrow>
   State_less (state l) (state r) = (state_class l < state_class r)"
  by (auto simp: State_less_def state_class_def)

lemma compare_core:
  fixes l r :: Board
  defines "lp \<equiv> map_option protocol (port l)" and "rp \<equiv> map_option protocol (port r)"
  shows "compare ncmp l r =
     (if lp = Some ''serial'' \<and> rp \<noteq> Some ''serial'' then - 1
      else if lp \<noteq> Some ''serial'' \<and> rp = Some ''serial'' then 1
      else if lp = Some ''network'' \<and> rp \<noteq> Some ''network'' then - 1
      else if lp \<noteq> Some ''network'' \<and> rp = Some ''network'' then 1
      else if lp = rp then
        (if State_less (state l) (state r) then - 1
         else if State_less (state r) (state l) then 1
         else ncmp (map_option address (port l)) (map_option address (port r)))
      else ncmp (map_option address (port l)) (map_option address (port r)))"
    and "protocol_class l = (if lp = Some ''serial'' then 0 else if lp = Some ''network'' then 1 else 2)"
    and "protocol_class r = (if rp = Some ''serial'' then 0 else if rp = Some ''network'' then 1 else 2)"
  unfolding compare_def protocol_class_def Let_def lp_def rp_def by (rule refl)+

lemma core_gen:
  fixes lp rp :: "string option" and a b c :: int
  defines "cl \<equiv> (if lp = Some ''serial'' then 0 else if lp = Some ''network'' then 1 else (2::nat))"
    and "cr \<equiv> (if rp = Some ''serial'' then 0 else if rp = Some ''network'' then 1 else (2::nat))"
    and "v \<equiv> (if lp = Some ''serial'' \<and> rp \<noteq> Some ''serial'' then - 1
      else if lp \<noteq> Some ''serial'' \<and> rp = Some ''serial'' then 1
      else if lp = Some ''network'' \<and> rp \<noteq> Some ''network'' then - 1
      else if lp \<noteq> Some ''network'' \<and> rp = Some ''network'' then 1
      else if lp = rp then a else b)"
  shows "cl < cr \<Longrightarrow> v = - 1"
    and "cr < cl \<Longrightarrow> v = 1"
    and "cl = cr \<Longrightarrow> cl \<noteq> 2 \<Longrightarrow> lp = rp"
    and "cl = cr \<Longrightarrow> lp = rp \<Longrightarrow> v = a"
    and "cl = 2 \<Longrightarrow> cr = 2 \<Longrightarrow> lp \<noteq> rp \<Longrightarrow> v = b"
  unfolding cl_def cr_def v_def by (auto split: if_splits)

lemma compare_class_less:
  "protocol_class l < protocol_class r \<Longrightarrow> compare ncmp l r = - 1"
  unfolding compare_core by (rule core_gen(1))

lemma compare_class_greater:
  "protocol_class r < protocol_class l \<Longrightarrow> compare ncmp l r = 1"
  unfolding compare_core by (rule core_gen(2))

lemma same_class_same_protocol:
  "protocol_class l = protocol_class r \<Longrightarrow> protocol_class l \<noteq> 2 \<Longrightarrow>
   map_option protocol (port l) = map_option protocol (port r)"
  unfolding compare_core by (rule core_gen(3))

lemma compare_same_protocol:
  "protocol_class l = protocol_class r \<Longrightarrow>
   map_option protocol (port l) = map_option protocol (port r) \<Longrightarrow>
   compare ncmp l r =
     (if State_less (state l) (state r) then - 1
      else if State_less (state r) (state l) then 1
      else ncmp (map_option address (port l)) (map_option address (port r)))"
  unfolding compare_core by (rule core_gen(4))

lemma compare_other_protocols:
  "protocol_class l = 2 \<Longrightarrow> protocol_class r = 2 \<Longrightarrow>
   map_option protocol (port l) \<noteq> map_option protocol (port r) \<Longrightarrow>
   compare ncmp l r = ncmp (map_option address (port l)) (map_option address (port r))"
  unfolding compare_core by (rule core_gen(5))

lemma compare_precedes:
  assumes st: "state l \<noteq> None" "state r \<noteq> None"
    and other: "protocol_class l = 2 \<and> protocol_class r = 2 \<longrightarrow>
                 map_option protocol (port l) = map_option protocol (port r)"
    and le: "compare ncmp l r \<le> 0"
  shows "precedes ncmp l r"
proof -
  consider "protocol_class l < protocol_class r" | "protocol_class r < protocol_class l"
    | "protocol_class l = protocol_class r" by linarith
  then show ?thesis
  proof cases
    case 1
    then show ?thesis by (simp add: precedes_def)
  next
    case 2
    with le show ?thesis by (simp add: compare_class_greater)
  next
    case 3
    with other same_class_same_protocol[OF 3]
    have p: "map_option protocol (port l) = map_option protocol (port r)" by auto
    from le show ?thesis
      by (simp add: compare_same_protocol[OF 3 p] precedes_def 3 State_less_class[OF st]
          State_less_class[OF st(2,1)] split: if_splits)
  qed
qed

lemma compare_precedes_flip:
  assumes st: "state l \<noteq> None" "state r \<noteq> None"
    and other: "protocol_class l = 2 \<and> protocol_class r = 2 \<longrightarrow>
                 map_option protocol (port l) = map_option protocol (port r)"
    and total: "0 < ncmp (map_option address (port l)) (map_option address (port r))
              \<longrightarrow> ncmp (map_option address (port r)) (map_option address (port l)) \<le> 0"
    and gt: "\<not> compare ncmp l r \<le> 0"
  shows "precedes ncmp r l"
proof -
  consider "protocol_class l < protocol_class r" | "protocol_class r < protocol_class l"
    | "protocol_class l = protocol_class r" by linarith
  then show ?thesis
  proof cases
    case 1
    with gt show ?thesis by (simp add: compare_class_less)
  next
    case 2
    then show ?thesis by (simp add: precedes_def)
  next
    case 3
    with other same_class_same_protocol[OF 3]
    have p: "map_option protocol (port l) = map_option protocol (port r)" by auto
    from gt total show ?thesis
      by (simp add: compare_same_protocol[OF 3 p] precedes_def 3 State_less_class[OF st]
          State_less_class[OF st(2,1)] split: if_splits)
  qed
qed

lemma lex_trans:
  fixes c1 c2 c3 s1 s2 s3 :: nat
  assumes "c1 < c2 \<or> (c1 = c2 \<and> (s1 < s2 \<or> (s1 = s2 \<and> n12)))"
    and "c2 < c3 \<or> (c2 = c3 \<and> (s2 < s3 \<or> (s2 = s3 \<and> n23)))"
    and "n12 \<and> n23 \<longrightarrow> n13"
  shows "c1 < c3 \<or> (c1 = c3 \<and> (s1 < s3 \<or> (s1 = s3 \<and> n13)))"
  using assms by auto

lemma precedes_trans:
  assumes "precedes ncmp a b" "precedes ncmp b c"
    and "ncmp (map_option address (port a)) (map_option address (port b)) \<le> 0
         \<and> ncmp (map_option address (port b)) (map_option address (port c)) \<le> 0
         \<longrightarrow> ncmp (map_option address (port a)) (map_option address (port c)) \<le> 0"
  shows "precedes ncmp a c"
  using assms unfolding precedes_def by (rule lex_trans)

lemma Array_sort_precedes:
  assumes states: "\<forall>b\<in>set xs. state b \<noteq> None"
    and others: "\<forall>a\<in>set xs. \<forall>b\<in>set xs. protocol_class a = 2 \<and> protocol_class b = 2 \<longrightarrow>
                   map_option protocol (port a) = map_option protocol (port b)"
    and total: "\<forall>a\<in>set xs. \<forall>b\<in>set xs.
                   0 < ncmp (map_option address (port a)) (map_option address (port b)) \<longrightarrow>
                   ncmp (map_option address (port b)) (map_option address (port a)) \<le> 0"
    and trans: "\<forall>a\<in>set xs. \<forall>b\<in>set xs. \<forall>c\<in>set xs.
                   ncmp (map_option address (port a)) (map_option address (port b)) \<le> 0
                   \<and> ncmp (map_option address (port b)) (map_option address (port c)) \<le> 0 \<longrightarrow>
                   ncmp (map_option address (port a)) (map_option address (port c)) \<le> 0"
  shows "sorted_wrt (precedes ncmp) (Array_sort (compare ncmp) xs)
         \<and> mset (Array_sort (compare ncmp) xs) = mset xs"
proof
  show "sorted_wrt (precedes ncmp) (Array_sort (compare ncmp) xs)"
  proof (rule sorted_wrt_Array_sort)
    fix x y assume xy: "x \<in> set xs" "y \<in> set xs" and le: "compare ncmp x y \<le> 0"
    from states xy have st: "state x \<noteq> None" "state y \<noteq> None" by blast+
    from others xy have o: "protocol_class x = 2 \<and> protocol_class y = 2 \<longrightarrow>
                   map_option protocol (port x) = map_option protocol (port y)" by blast
    from st o le show "precedes ncmp x y" by (rule compare_precedes)
  next
    fix x y assume xy: "x \<in> set xs" "y \<in> set xs" and gt: "\<not> compare ncmp x y \<le> 0"
    from states xy have st: "state x \<noteq> None" "state y \<noteq> None" by blast+
    from others xy have o: "protocol_class x = 2 \<and> protocol_class y = 2 \<longrightarrow>
                   map_option protocol (port x) = map_option protocol (port y)" by blast
    from total xy have t: "0 < ncmp (map_option address (port x)) (map_option address (port y)) \<longrightarrow>
                   ncmp (map_option address (port y)) (map_option address (port x)) \<le> 0" by blast
    from st o t gt show "precedes ncmp y x" by (rule compare_precedes_flip)
  next
    fix x y z assume xyz: "x \<in> set xs" "y \<in> set xs" "z \<in> set xs"
      and p: "precedes ncmp x y" "precedes ncmp y z"
    from trans xyz have "ncmp (map_option address (port x)) (map_option address (port y)) \<le> 0
                   \<and> ncmp (map_option address (port y)) (map_option address (port z)) \<le> 0 \<longrightarrow>
                   ncmp (map_option address (port x)) (map_option address (port z)) \<le> 0" by blast
    with p show "precedes ncmp x z" by (rule precedes_trans)
  qed
  show "mset (Array_sort (compare ncmp) xs) = mset xs" by (rule mset_Array_sort)
qed


section \<open>Reconciliation\<close>

lemma distinct_map_Array_sort:
  "distinct (map f (Array_sort cmp xs)) = distinct (map f xs)"
proof -
  have "mset (map f (Array_sort cmp xs)) = mset (map f xs)"
    by (simp add: mset_Array_sort)
  then show ?thesis by (rule mset_eq_imp_distinct_iff)
qed

lemma filter_Array_sort_single:
  assumes "filter P xs = [x]"
  shows "filter P (Array_sort cmp xs) = [x]"
proof -
  have "mset (filter P (Array_sort cmp xs)) = mset (filter P xs)"
    by (simp add: mset_Array_sort)
  also have "\<dots> = {#x#}" using assms by simp
  finally show ?thesis by (simp only: mset_single_iff)
qed

lemma length_filter_Array_sort:
  "length (filter P (Array_sort cmp xs)) = length (filter P xs)"
proof -
  have "mset (filter P (Array_sort cmp xs)) = mset (filter P xs)"
    by (simp add: mset_Array_sort)
  then show ?thesis by (metis size_mset)
qed

lemma findIndex_negative: "findIndex P xs < 0 \<longleftrightarrow> (\<forall>x\<in>set xs. \<not> P x)"
  by (induction xs) (auto simp: Let_def)

lemma findIndex_lower: "- 1 \<le> findIndex P xs"
  by (induction xs) (auto simp: Let_def)

lemma splice1_Cons:
  "splice1 0 (x # xs) = xs"
  "0 \<le> i \<Longrightarrow> splice1 (i + 1) (x # xs) = x # splice1 i xs"
  by (simp_all add: splice1_def nat_add_distrib)

lemma splice1_findIndex:
  "0 \<le> findIndex P xs \<Longrightarrow>
   \<exists>ys x zs. xs = ys @ x # zs \<and> P x \<and> (\<forall>y\<in>set ys. \<not> P y)
      \<and> splice1 (findIndex P xs) xs = ys @ zs"
proof (induction xs)
  case Nil
  then show ?case by simp
next
  case (Cons a xs)
  show ?case
  proof (cases "P a")
    case True
    then have "(a # xs) = [] @ a # xs \<and> P a \<and> (\<forall>y\<in>set []. \<not> P y)
        \<and> splice1 (findIndex P (a # xs)) (a # xs) = [] @ xs"
      by (simp add: splice1_Cons)
    then show ?thesis by blast
  next
    case False
    with Cons.prems have nn: "0 \<le> findIndex P xs"
      by (auto simp: Let_def split: if_splits)
    from Cons.IH[OF nn] obtain ys x zs where
      d: "xs = ys @ x # zs" "P x" "\<forall>y\<in>set ys. \<not> P y" "splice1 (findIndex P xs) xs = ys @ zs"
      by blast
    have "findIndex P (a # xs) = findIndex P xs + 1"
      using False nn by (simp add: Let_def)
    then have "splice1 (findIndex P (a # xs)) (a # xs) = (a # ys) @ zs"
      using nn d(4) by (simp add: splice1_Cons)
    moreover have "a # xs = (a # ys) @ x # zs" using d(1) by simp
    moreover have "\<forall>y\<in>set (a # ys). \<not> P y" using d(3) False by simp
    ultimately show ?thesis using d(2) by blast
  qed
qed

lemma port_resolveBoard: "port (resolveBoard remembered s p) = Some p"
  by (simp add: resolveBoard_def Let_def split: option.splits)

lemma addr_resolved:
  "map (\<lambda>b. map_option address (port b)) (map (resolveBoard remembered s) ps) = map (\<lambda>p. Some (address p)) ps"
  by (simp add: port_resolveBoard)

lemma distinct_availableBoardPorts:
  "distinct (map address (availablePorts s)) \<Longrightarrow> distinct (map address (availableBoardPorts s))"
  by (simp add: availableBoardPorts_def Let_def distinct_map_filter)

lemma distinct_resolved:
  assumes "distinct (map address (availablePorts s))"
  shows "distinct (map (\<lambda>b. map_option address (port b))
            (map (resolveBoard remembered s) (availableBoardPorts s)))"
proof -
  have "distinct (map address (availableBoardPorts s))"
    using assms by (rule distinct_availableBoardPorts)
  then have "distinct (map (\<lambda>p. Some (address p)) (availableBoardPorts s))"
    by (auto simp: distinct_map inj_on_def)
  then show ?thesis by (simp only: addr_resolved)
qed

lemma addr_selectedEntry:
  "map_option address (port (selectedEntry config sb)) = map_option address (selectedPort config)"
  by (simp add: selectedEntry_def)

lemma injectSelected_cases:
  assumes "selectedBoard config = Some sb" "\<not> list_ex (\<lambda>b. selected b = Some True) bs"
  shows "\<exists>kept. injectSelected config bs = kept @ [selectedEntry config sb]
           \<and> set kept \<subseteq> set bs
           \<and> (distinct (map (\<lambda>b. map_option address (port b)) bs) \<longrightarrow>
                distinct (map (\<lambda>b. map_option address (port b)) kept)
                \<and> (\<forall>b\<in>set kept. map_option address (port b) \<noteq> map_option address (selectedPort config)))"
proof (cases "0 \<le> findIndex (\<lambda>board. map_option address (port board) = map_option address (selectedPort config)) bs")
  case True
  from splice1_findIndex[OF True] obtain ys x zs where
    d: "bs = ys @ x # zs" "map_option address (port x) = map_option address (selectedPort config)"
       "splice1 (findIndex (\<lambda>board. map_option address (port board) = map_option address (selectedPort config)) bs) bs = ys @ zs"
    by blast
  have "injectSelected config bs = (ys @ zs) @ [selectedEntry config sb]"
    using assms True d(3) by (simp add: injectSelected_def Let_def)
  moreover have "set (ys @ zs) \<subseteq> set bs" using d(1) by auto
  moreover have "distinct (map (\<lambda>b. map_option address (port b)) bs) \<longrightarrow>
                distinct (map (\<lambda>b. map_option address (port b)) (ys @ zs))
                \<and> (\<forall>b\<in>set (ys @ zs). map_option address (port b) \<noteq> map_option address (selectedPort config))"
    using d(1,2) by (auto simp: image_iff)
  ultimately show ?thesis by blast
next
  case False
  then have none: "\<forall>b\<in>set bs. map_option address (port b) \<noteq> map_option address (selectedPort config)"
    using findIndex_negative[of "\<lambda>board. map_option address (port board) = map_option address (selectedPort config)" bs]
    by auto
  have "injectSelected config bs = bs @ [selectedEntry config sb]"
    using assms False by (simp add: injectSelected_def Let_def)
  with none show ?thesis by blast
qed

lemma injectSelected_unchanged:
  "selectedBoard config = None \<or> list_ex (\<lambda>b. selected b = Some True) bs \<Longrightarrow>
   injectSelected config bs = bs"
  by (auto simp: injectSelected_def split: option.splits)

lemma distinct_injectSelected:
  assumes "distinct (map (\<lambda>b. map_option address (port b)) bs)"
  shows "distinct (map (\<lambda>b. map_option address (port b)) (injectSelected config bs))"
proof (cases "selectedBoard config = None \<or> list_ex (\<lambda>b. selected b = Some True) bs")
  case True
  then show ?thesis using assms by (simp add: injectSelected_unchanged)
next
  case False
  then obtain sb where sb: "selectedBoard config = Some sb" "\<not> list_ex (\<lambda>b. selected b = Some True) bs"
    by auto
  from injectSelected_cases[OF sb] assms obtain kept where
    k: "injectSelected config bs = kept @ [selectedEntry config sb]"
       "distinct (map (\<lambda>b. map_option address (port b)) kept)"
       "\<forall>b\<in>set kept. map_option address (port b) \<noteq> map_option address (selectedPort config)"
    by blast
  show ?thesis using k by (auto simp: addr_selectedEntry)
qed

lemma unsetPort_fields:
  "availablePorts (unsetPort s) = availablePorts s"
  "attachedBoards (unsetPort s) = attachedBoards s"
  "availableBoards (unsetPort s) = availableBoards s"
  by (simp_all add: unsetPort_def Let_def setBoardsConfig_fields split: option.splits)

lemma reconcileAvailableBoards_list:
  "availableBoards (reconcileAvailableBoards ncmp remembered s)
     = (if hasChanged ncmp (reconciled ncmp remembered (unsetPort s)) (availableBoards s)
        then reconciled ncmp remembered (unsetPort s) else availableBoards s)"
  by (simp add: reconcileAvailableBoards_def Let_def unsetPort_fields)

lemma length_filter_le:
  "(\<forall>x\<in>set xs. P x \<longrightarrow> Q x) \<Longrightarrow> length (filter P xs) \<le> length (filter Q xs)"
  by (induction xs) auto

lemma length_filter_distinct_key:
  "distinct (map f xs) \<Longrightarrow> length (filter (\<lambda>x. f x = a) xs) \<le> 1"
proof (induction xs)
  case Nil
  then show ?case by simp
next
  case (Cons x xs)
  show ?case
  proof (cases "f x = a")
    case True
    with Cons.prems have "a \<notin> f ` set xs" by simp
    then have "\<forall>y\<in>set xs. f y \<noteq> a" by blast
    then have "filter (\<lambda>x. f x = a) xs = []" by (simp add: filter_empty_conv)
    with True show ?thesis by simp
  next
    case False
    with Cons show ?thesis by simp
  qed
qed

lemma selected_resolveBoard:
  assumes keyed: "\<forall>a b q. remembered a = Some b \<and> port b = Some q \<longrightarrow> address q = a"
    and sel: "selected (resolveBoard remembered s p) = Some True"
  shows "map_option address (selectedPort (boardsConfig s)) = Some (address p)"
proof (cases "find (\<lambda>b. Port_sameAs (Some p) (port b)) (filter (\<lambda>b. port b \<noteq> None) (attachedBoards s))")
  case (Some board)
  then have same: "Port_sameAs (Some p) (port board)"
    by (auto simp: find_Some_iff)
  from sel Some have "Config_sameAs (boardsConfig s) board"
    by (simp add: resolveBoard_def)
  then have "Port_sameAs (selectedPort (boardsConfig s)) (port board)"
    by (auto simp: Config_sameAs_def split: option.splits)
  with same show ?thesis
    by (auto simp: Port_sameAs_def split: option.splits)
next
  case None
  show ?thesis
  proof (cases "remembered (address p)")
    case rnone: None
    with sel None show ?thesis by (simp add: resolveBoard_def)
  next
    case (Some lsb)
    with sel None have "Config_sameAs (boardsConfig s) lsb"
      by (simp add: resolveBoard_def)
    then have "Port_sameAs (selectedPort (boardsConfig s)) (port lsb)"
      by (auto simp: Config_sameAs_def split: option.splits)
    then obtain sp q where q: "selectedPort (boardsConfig s) = Some sp" "port lsb = Some q"
        "address sp = address q"
      by (auto simp: Port_sameAs_def split: option.splits)
    from keyed Some q(2) have "address q = address p" by blast
    with q show ?thesis by simp
  qed
qed

lemma hasChanged_selected:
  assumes "\<not> hasChanged ncmp new cur"
  shows "map selected cur = map selected new"
proof -
  from assms have len: "length new = length cur"
    and same: "\<forall>(l, r)\<in>set (zip new cur). selected l = selected r"
    by (auto simp: hasChanged_def list_ex_iff)
  from len same show ?thesis
    by (induction new cur rule: list_induct2) auto
qed

lemma length_selected_map:
  "length (filter (\<lambda>b. selected b = Some True) xs)
     = length (filter (\<lambda>v. v = Some True) (map selected xs))"
  by (simp add: filter_map comp_def)

lemma reconcileAvailableBoards_selected:
  "map selected (availableBoards (reconcileAvailableBoards ncmp remembered s))
     = map selected (reconciled ncmp remembered (unsetPort s))"
  by (simp add: reconcileAvailableBoards_list hasChanged_selected)


text \<open>
  C6, as the code has it. When the available ports have pairwise different addresses,
  the entries of the list a pass computes have pairwise different port addresses; the
  stored list keeps the property from pass to pass; and when the selection is injected
  the injected entry is the only one at the address of the selected port.
\<close>

theorem reconciled_distinct_addresses:
  assumes "distinct (map address (availablePorts s))"
  shows "distinct (map (\<lambda>b. map_option address (port b)) (reconciled ncmp remembered (unsetPort s)))
    \<and> (distinct (map (\<lambda>b. map_option address (port b)) (availableBoards s)) \<longrightarrow>
         distinct (map (\<lambda>b. map_option address (port b))
           (availableBoards (reconcileAvailableBoards ncmp remembered s))))
    \<and> (\<forall>sb. selectedBoard (boardsConfig (unsetPort s)) = Some sb
          \<and> \<not> list_ex (\<lambda>b. selected b = Some True)
                (map (resolveBoard remembered (unsetPort s)) (availableBoardPorts (unsetPort s)))
        \<longrightarrow> filter (\<lambda>b. map_option address (port b)
                          = map_option address (selectedPort (boardsConfig (unsetPort s))))
              (reconciled ncmp remembered (unsetPort s))
            = [selectedEntry (boardsConfig (unsetPort s)) sb])"
proof -
  let ?s = "unsetPort s"
  let ?cands = "map (resolveBoard remembered ?s) (availableBoardPorts ?s)"
  have dp: "distinct (map address (availablePorts ?s))" using assms by (simp add: unsetPort_fields)
  have dc: "distinct (map (\<lambda>b. map_option address (port b)) ?cands)"
    using dp by (rule distinct_resolved)
  have d1: "distinct (map (\<lambda>b. map_option address (port b)) (reconciled ncmp remembered ?s))"
    unfolding reconciled_def distinct_map_Array_sort using dc by (rule distinct_injectSelected)
  have d3: "filter (\<lambda>b. map_option address (port b) = map_option address (selectedPort (boardsConfig ?s)))
              (reconciled ncmp remembered ?s) = [selectedEntry (boardsConfig ?s) sb]"
    if sb: "selectedBoard (boardsConfig ?s) = Some sb" "\<not> list_ex (\<lambda>b. selected b = Some True) ?cands" for sb
  proof -
    from injectSelected_cases[OF sb] dc obtain kept where
      k: "injectSelected (boardsConfig ?s) ?cands = kept @ [selectedEntry (boardsConfig ?s) sb]"
         "\<forall>b\<in>set kept. map_option address (port b) \<noteq> map_option address (selectedPort (boardsConfig ?s))"
      by blast
    have "filter (\<lambda>b. map_option address (port b) = map_option address (selectedPort (boardsConfig ?s)))
            (injectSelected (boardsConfig ?s) ?cands) = [selectedEntry (boardsConfig ?s) sb]"
      using k by (simp add: addr_selectedEntry)
    then show ?thesis unfolding reconciled_def by (rule filter_Array_sort_single)
  qed
  show ?thesis using d1 d3 by (simp add: reconcileAvailableBoards_list)
qed



text \<open>
  C5, as the code has it. When the available ports have pairwise different addresses
  and every remembered board that carries a port carries one of the address it is
  remembered for, at most one entry of the computed list, and of the stored list after
  the pass, is selected. Whenever the configuration (after the first step) has a board
  and no entry made for a port is selected, the selected entries of the computed list
  are exactly one: the selected board with the selected port, selected, incomplete.
\<close>

theorem reconciled_single_selection:
  "(distinct (map address (availablePorts s))
      \<and> (\<forall>a b q. remembered a = Some b \<and> port b = Some q \<longrightarrow> address q = a)
    \<longrightarrow> length (filter (\<lambda>b. selected b = Some True) (reconciled ncmp remembered (unsetPort s))) \<le> 1
        \<and> length (filter (\<lambda>b. selected b = Some True)
             (availableBoards (reconcileAvailableBoards ncmp remembered s))) \<le> 1)
   \<and> (\<forall>sb. selectedBoard (boardsConfig (unsetPort s)) = Some sb
         \<and> \<not> list_ex (\<lambda>b. selected b = Some True)
               (map (resolveBoard remembered (unsetPort s)) (availableBoardPorts (unsetPort s)))
       \<longrightarrow> filter (\<lambda>b. selected b = Some True) (reconciled ncmp remembered (unsetPort s))
             = [sb\<lparr>port := selectedPort (boardsConfig (unsetPort s)), selected := Some True,
                    state := Some incomplete\<rparr>])"
proof (intro conjI impI allI)
  let ?s = "unsetPort s"
  let ?cands = "map (resolveBoard remembered ?s) (availableBoardPorts ?s)"
  let ?sel = "\<lambda>b. selected b = Some True"
  assume h: "distinct (map address (availablePorts s))
      \<and> (\<forall>a b q. remembered a = Some b \<and> port b = Some q \<longrightarrow> address q = a)"
  then have dc: "distinct (map (\<lambda>b. map_option address (port b)) ?cands)"
    by (intro distinct_resolved) (simp add: unsetPort_fields)
  have "\<forall>b\<in>set ?cands. ?sel b \<longrightarrow>
      map_option address (port b) = map_option address (selectedPort (boardsConfig ?s))"
  proof (intro ballI impI)
    fix b
    assume "b \<in> set ?cands" and sel: "selected b = Some True"
    then obtain p where b: "b = resolveBoard remembered ?s p" by auto
    from h have keyed: "\<forall>a b q. remembered a = Some b \<and> port b = Some q \<longrightarrow> address q = a"
      by simp
    from selected_resolveBoard[OF keyed] sel b
    have "map_option address (selectedPort (boardsConfig ?s)) = Some (address p)" by blast
    then show "map_option address (port b) = map_option address (selectedPort (boardsConfig ?s))"
      using b by (auto simp: port_resolveBoard)
  qed
  then have "length (filter ?sel ?cands)
      \<le> length (filter (\<lambda>b. map_option address (port b)
            = map_option address (selectedPort (boardsConfig ?s))) ?cands)"
    by (rule length_filter_le)
  also have "\<dots> \<le> 1" using dc by (rule length_filter_distinct_key)
  finally have c1: "length (filter ?sel ?cands) \<le> 1" .
  have "length (filter ?sel (injectSelected (boardsConfig ?s) ?cands)) \<le> 1"
  proof (cases "selectedBoard (boardsConfig ?s) = None \<or> list_ex ?sel ?cands")
    case True
    then show ?thesis using c1 by (simp add: injectSelected_unchanged)
  next
    case False
    then obtain sb where sb: "selectedBoard (boardsConfig ?s) = Some sb" "\<not> list_ex ?sel ?cands"
      by auto
    from injectSelected_cases[OF sb] obtain kept where
      k: "injectSelected (boardsConfig ?s) ?cands = kept @ [selectedEntry (boardsConfig ?s) sb]"
         "set kept \<subseteq> set ?cands"
      by blast
    from k(2) sb(2) have "filter ?sel kept = []"
      by (auto simp: filter_empty_conv list_ex_iff)
    with k(1) show ?thesis by (simp add: selectedEntry_def)
  qed
  then show one: "length (filter ?sel (reconciled ncmp remembered ?s)) \<le> 1"
    by (simp add: reconciled_def length_filter_Array_sort)
  show "length (filter ?sel (availableBoards (reconcileAvailableBoards ncmp remembered s))) \<le> 1"
    using one
    by (simp only: length_selected_map[of "availableBoards (reconcileAvailableBoards ncmp remembered s)"]
        length_selected_map[of "reconciled ncmp remembered (unsetPort s)"]
        reconcileAvailableBoards_selected)
next
  fix sb
  let ?s = "unsetPort s"
  let ?cands = "map (resolveBoard remembered ?s) (availableBoardPorts ?s)"
  let ?sel = "\<lambda>b. selected b = Some True"
  assume a: "selectedBoard (boardsConfig ?s) = Some sb \<and> \<not> list_ex ?sel ?cands"
  then have sb: "selectedBoard (boardsConfig ?s) = Some sb" "\<not> list_ex ?sel ?cands" by simp_all
  from injectSelected_cases[OF sb] obtain kept where
    k: "injectSelected (boardsConfig ?s) ?cands = kept @ [selectedEntry (boardsConfig ?s) sb]"
       "set kept \<subseteq> set ?cands"
    by blast
  from k(2) sb(2) have "filter ?sel kept = []"
    by (auto simp: filter_empty_conv list_ex_iff)
  with k(1) have "filter ?sel (injectSelected (boardsConfig ?s) ?cands)
      = [selectedEntry (boardsConfig ?s) sb]"
    by (simp add: selectedEntry_def)
  then have "filter ?sel (reconciled ncmp remembered ?s) = [selectedEntry (boardsConfig ?s) sb]"
    unfolding reconciled_def by (rule filter_Array_sort_single)
  then show "filter ?sel (reconciled ncmp remembered ?s)
             = [sb\<lparr>port := selectedPort (boardsConfig ?s), selected := Some True,
                    state := Some incomplete\<rparr>]"
    by (simp add: selectedEntry_def)
qed

subsection \<open>The examples, evaluated\<close>

lemmas ex_defs = init_engine_def serial_port_def plain_board_def uno_def uno_on_COM5_def uno_at_COM5_def
  no_memory_def
lemmas rec_defs = reconciled_def availableBoardPorts_def resolveBoard_def injectSelected_def selectedEntry_def
  unsetPort_def Port_sameAs_def Config_sameAs_def Board_equals_def compare_def State_less_def
  naturalCompare_def is_digit_def flush_def splice1_def Let_def

lemma four_boards_reconciled:
  "reconciled naturalCompare B_memory four_boards =
     [\<lparr>name = ''a'', fqbn = Some ''v:a:a'', packageId = None, port = Some (serial_port ''A''),
       state = Some recognized, selected = Some False\<rparr>,
      \<lparr>name = ''b'', fqbn = Some ''v:a:b'', packageId = None, port = Some (serial_port ''B''),
       state = Some guessed, selected = Some False\<rparr>,
      \<lparr>name = ''c'', fqbn = Some ''v:a:c'', packageId = None,
       port = Some \<lparr>address = ''C'', protocol = ''network''\<rparr>,
       state = Some recognized, selected = Some False\<rparr>,
      \<lparr>name = ''d'', fqbn = Some ''v:a:d'', packageId = None,
       port = Some \<lparr>address = ''D'', protocol = ''usb''\<rparr>,
       state = Some recognized, selected = Some False\<rparr>]"
  by (simp add: four_boards_def B_memory_def ex_defs rec_defs)

lemma other_protocols_reconciled:
  "reconciled naturalCompare no_memory (unsetPort other_protocols) =
     [uno\<lparr>port := Some \<lparr>address = ''usb1'', protocol = ''dfu''\<rparr>, selected := Some True,
          state := Some incomplete\<rparr>,
      \<lparr>name = ''Teensy'', fqbn = Some ''teensy:avr:teensy40'', packageId = None,
       port = Some \<lparr>address = ''usb2'', protocol = ''teensy''\<rparr>,
       state = Some recognized, selected = Some False\<rparr>]"
  by (simp add: other_protocols_def ex_defs rec_defs)

lemma shared_address_reconciled:
  "map (\<lambda>b. (map_option address (port b), map_option protocol (port b), state b))
     (reconciled naturalCompare no_memory (unsetPort shared_address))
   = [(Some ''COM5'', Some ''serial'', Some recognized), (Some ''COM5'', Some ''usb'', Some incomplete)]"
  by (simp add: shared_address_def ex_defs rec_defs)

lemma two_serial_reconciled:
  "map (\<lambda>b. (map_option address (port b), state b, selected b))
     (reconciled naturalCompare stale_memory (unsetPort two_serial))
   = [(Some ''COM5'', Some guessed, Some True), (Some ''COM10'', Some guessed, Some True)]"
  by (simp add: two_serial_def stale_memory_def ex_defs rec_defs)

lemma uno_absent_reconciled:
  "reconciled naturalCompare no_memory (unsetPort uno_absent)
   = [uno\<lparr>port := Some (serial_port ''COM5''), selected := Some True, state := Some incomplete\<rparr>]"
  by (simp add: uno_absent_def ex_defs rec_defs)

lemma uno_attached_reconciled:
  "map (\<lambda>b. (map_option address (port b), state b, selected b))
     (reconciled naturalCompare COM5_memory (unsetPort uno_attached))
   = [(Some ''COM5'', Some recognized, Some True), (Some ''COM10'', Some incomplete, None)]"
  by (simp add: uno_attached_def COM5_memory_def ex_defs rec_defs)


lemma shared_address_addresses:
  "map (\<lambda>b. map_option address (port b)) (reconciled naturalCompare no_memory (unsetPort shared_address))
   = [Some ''COM5'', Some ''COM5'']"
  by (simp add: shared_address_def ex_defs rec_defs)

lemma two_serial_selected:
  "map selected (reconciled naturalCompare stale_memory (unsetPort two_serial)) = [Some True, Some True]"
  by (simp add: two_serial_def stale_memory_def ex_defs rec_defs)

lemma COM5_memory_keyed:
  "\<forall>a b q. COM5_memory a = Some b \<and> port b = Some q \<longrightarrow> address q = a"
  by (simp add: COM5_memory_def uno_at_COM5_def serial_port_def)

lemma naturalCompare_ABCD:
  "naturalCompare (Some ''A'') (Some ''A'') = 0" "naturalCompare (Some ''A'') (Some ''B'') = - 1"
  "naturalCompare (Some ''A'') (Some ''C'') = - 1" "naturalCompare (Some ''A'') (Some ''D'') = - 1"
  "naturalCompare (Some ''B'') (Some ''A'') = 1" "naturalCompare (Some ''B'') (Some ''B'') = 0"
  "naturalCompare (Some ''B'') (Some ''C'') = - 1" "naturalCompare (Some ''B'') (Some ''D'') = - 1"
  "naturalCompare (Some ''C'') (Some ''A'') = 1" "naturalCompare (Some ''C'') (Some ''B'') = 1"
  "naturalCompare (Some ''C'') (Some ''C'') = 0" "naturalCompare (Some ''C'') (Some ''D'') = - 1"
  "naturalCompare (Some ''D'') (Some ''A'') = 1" "naturalCompare (Some ''D'') (Some ''B'') = 1"
  "naturalCompare (Some ''D'') (Some ''C'') = 1" "naturalCompare (Some ''D'') (Some ''D'') = 0"
  by (simp_all add: naturalCompare_def is_digit_def flush_def)


lemma three_others_entries:
  "set (reconciled naturalCompare no_memory (unsetPort three_others))
     = {selected_on_usb1, teensy_on_usb2, zero_on_usb3}"
  by (simp add: three_others_def selected_on_usb1_def teensy_on_usb2_def zero_on_usb3_def ex_defs rec_defs)
     (auto simp: uno_def plain_board_def)

lemma three_others_cycle:
  "compare naturalCompare zero_on_usb3 selected_on_usb1 < 0
   \<and> compare naturalCompare selected_on_usb1 teensy_on_usb2 < 0
   \<and> compare naturalCompare teensy_on_usb2 zero_on_usb3 < 0"
  by (simp add: selected_on_usb1_def teensy_on_usb2_def zero_on_usb3_def compare_def State_less_def
      naturalCompare_def is_digit_def flush_def Let_def uno_def plain_board_def)

text \<open>The examples of C6: the absent Uno takes the slot of its port alone.\<close>

theorem reconciled_distinct_addresses_witness:
  "distinct (map address (availablePorts uno_absent))
   \<and> distinct (map (\<lambda>b. map_option address (port b))
        (reconciled naturalCompare no_memory (unsetPort uno_absent)))
   \<and> filter (\<lambda>b. map_option address (port b) = Some ''COM5'')
        (reconciled naturalCompare no_memory (unsetPort uno_absent))
      = [uno\<lparr>port := Some (serial_port ''COM5''), selected := Some True, state := Some incomplete\<rparr>]"
  using reconciled_distinct_addresses [of uno_absent naturalCompare no_memory]
  by (simp add: uno_absent_reconciled) (simp add: uno_absent_def ex_defs)

text \<open>
  C6 as stated fails: two available ports of different protocols have the address COM5,
  the Uno is attached on the serial one, and the computed list has two entries at COM5.
\<close>

theorem reconciled_distinct_addresses_counterexample:
  "map protocol (availablePorts shared_address) = [''serial'', ''usb'']
   \<and> \<not> distinct (map (\<lambda>b. map_option address (port b))
           (reconciled naturalCompare no_memory (unsetPort shared_address)))"
  by (simp add: shared_address_addresses) (simp add: shared_address_def ex_defs)

text \<open>The examples of C5: the attached Uno is the one selected entry; the absent Uno is injected.\<close>

theorem reconciled_single_selection_witness:
  "distinct (map address (availablePorts uno_attached))
   \<and> length (filter (\<lambda>b. selected b = Some True)
        (reconciled naturalCompare COM5_memory (unsetPort uno_attached))) \<le> 1
   \<and> filter (\<lambda>b. selected b = Some True) (reconciled naturalCompare no_memory (unsetPort uno_absent))
      = [uno\<lparr>port := Some (serial_port ''COM5''), selected := Some True, state := Some incomplete\<rparr>]"
  using reconciled_single_selection [of uno_attached COM5_memory naturalCompare]
    reconciled_single_selection [of uno_absent no_memory naturalCompare] COM5_memory_keyed
  by (simp add: uno_absent_reconciled) (simp add: uno_attached_def ex_defs)

text \<open>
  C5 as stated fails: the ports COM5 and COM10 have different addresses, both remember
  the Uno with the port COM5 it was selected on, and both entries are selected.
\<close>

theorem reconciled_single_selection_counterexample:
  "distinct (map address (availablePorts two_serial))
   \<and> length (filter (\<lambda>b. selected b = Some True)
        (reconciled naturalCompare stale_memory (unsetPort two_serial))) = 2"
proof -
  have "length (filter (\<lambda>b. selected b = Some True)
        (reconciled naturalCompare stale_memory (unsetPort two_serial)))
      = length (filter (\<lambda>v. v = Some True)
          (map selected (reconciled naturalCompare stale_memory (unsetPort two_serial))))"
    by (rule length_selected_map)
  then show ?thesis
    by (simp add: two_serial_selected) (simp add: two_serial_def ex_defs)
qed


section \<open>The order of the computed list\<close>

lemma state_resolveBoard: "\<exists>st. state (resolveBoard remembered s p) = Some st"
  by (simp add: resolveBoard_def Let_def split: option.splits)

lemma reconciled_states: "\<forall>b\<in>set (reconciled ncmp remembered s). state b \<noteq> None"
proof (cases "selectedBoard (boardsConfig s) = None
    \<or> list_ex (\<lambda>b. selected b = Some True) (map (resolveBoard remembered s) (availableBoardPorts s))")
  case True
  then show ?thesis
    by (auto simp: reconciled_def set_Array_sort injectSelected_unchanged state_resolveBoard)
next
  case False
  then obtain sb where sb: "selectedBoard (boardsConfig s) = Some sb"
    "\<not> list_ex (\<lambda>b. selected b = Some True) (map (resolveBoard remembered s) (availableBoardPorts s))"
    by auto
  from injectSelected_cases[OF sb] obtain kept where
    k: "injectSelected (boardsConfig s) (map (resolveBoard remembered s) (availableBoardPorts s))
          = kept @ [selectedEntry (boardsConfig s) sb]"
       "set kept \<subseteq> set (map (resolveBoard remembered s) (availableBoardPorts s))"
    by blast
  have "\<forall>b\<in>set kept. state b \<noteq> None"
    using k(2) by (auto simp: state_resolveBoard)
  then show ?thesis
    by (simp add: reconciled_def set_Array_sort k(1) selectedEntry_def)
qed

text \<open>
  C7, as the code has it. The computed list is sorted by the order of the spec (serial,
  then network, then the other protocols; recognized, guessed, incomplete; the natural
  comparison of the addresses) whenever its entries that are neither serial nor network
  have one protocol and the natural comparison is total and transitive on its
  addresses. Between two entries of different protocols other than serial and network
  the comparator does not look at the state: it is the natural comparison of the
  addresses.
\<close>

theorem reconciled_sorted:
  "((\<forall>a\<in>set (reconciled ncmp remembered s). \<forall>b\<in>set (reconciled ncmp remembered s).
        protocol_class a = 2 \<and> protocol_class b = 2 \<longrightarrow>
        map_option protocol (port a) = map_option protocol (port b))
    \<and> (\<forall>a\<in>set (reconciled ncmp remembered s). \<forall>b\<in>set (reconciled ncmp remembered s).
          0 < ncmp (map_option address (port a)) (map_option address (port b)) \<longrightarrow>
          ncmp (map_option address (port b)) (map_option address (port a)) \<le> 0)
    \<and> (\<forall>a\<in>set (reconciled ncmp remembered s). \<forall>b\<in>set (reconciled ncmp remembered s).
        \<forall>c\<in>set (reconciled ncmp remembered s).
          ncmp (map_option address (port a)) (map_option address (port b)) \<le> 0
          \<and> ncmp (map_option address (port b)) (map_option address (port c)) \<le> 0 \<longrightarrow>
          ncmp (map_option address (port a)) (map_option address (port c)) \<le> 0)
    \<longrightarrow> sorted_wrt (precedes ncmp) (reconciled ncmp remembered s))
   \<and> (\<forall>l r. protocol_class l = 2 \<and> protocol_class r = 2
          \<and> map_option protocol (port l) \<noteq> map_option protocol (port r) \<longrightarrow>
          compare ncmp l r = ncmp (map_option address (port l)) (map_option address (port r)))"
proof (intro conjI impI allI)
  let ?xs = "injectSelected (boardsConfig s) (map (resolveBoard remembered s) (availableBoardPorts s))"
  assume h: "(\<forall>a\<in>set (reconciled ncmp remembered s). \<forall>b\<in>set (reconciled ncmp remembered s).
        protocol_class a = 2 \<and> protocol_class b = 2 \<longrightarrow>
        map_option protocol (port a) = map_option protocol (port b))
    \<and> (\<forall>a\<in>set (reconciled ncmp remembered s). \<forall>b\<in>set (reconciled ncmp remembered s).
          0 < ncmp (map_option address (port a)) (map_option address (port b)) \<longrightarrow>
          ncmp (map_option address (port b)) (map_option address (port a)) \<le> 0)
    \<and> (\<forall>a\<in>set (reconciled ncmp remembered s). \<forall>b\<in>set (reconciled ncmp remembered s).
        \<forall>c\<in>set (reconciled ncmp remembered s).
          ncmp (map_option address (port a)) (map_option address (port b)) \<le> 0
          \<and> ncmp (map_option address (port b)) (map_option address (port c)) \<le> 0 \<longrightarrow>
          ncmp (map_option address (port a)) (map_option address (port c)) \<le> 0)"
  have set_eq: "set (reconciled ncmp remembered s) = set ?xs"
    by (simp add: reconciled_def set_Array_sort)
  have states: "\<forall>b\<in>set ?xs. state b \<noteq> None"
    using reconciled_states[of ncmp remembered s] unfolding set_eq .
  from h have others: "\<forall>a\<in>set ?xs. \<forall>b\<in>set ?xs. protocol_class a = 2 \<and> protocol_class b = 2 \<longrightarrow>
        map_option protocol (port a) = map_option protocol (port b)"
    and total: "\<forall>a\<in>set ?xs. \<forall>b\<in>set ?xs.
          0 < ncmp (map_option address (port a)) (map_option address (port b)) \<longrightarrow>
          ncmp (map_option address (port b)) (map_option address (port a)) \<le> 0"
    and trans: "\<forall>a\<in>set ?xs. \<forall>b\<in>set ?xs. \<forall>c\<in>set ?xs.
          ncmp (map_option address (port a)) (map_option address (port b)) \<le> 0
          \<and> ncmp (map_option address (port b)) (map_option address (port c)) \<le> 0 \<longrightarrow>
          ncmp (map_option address (port a)) (map_option address (port c)) \<le> 0"
    unfolding set_eq by blast+
  from Array_sort_precedes[OF states others total trans]
  show "sorted_wrt (precedes ncmp) (reconciled ncmp remembered s)"
    by (simp add: reconciled_def)
next
  fix l r :: Board
  assume "protocol_class l = 2 \<and> protocol_class r = 2
          \<and> map_option protocol (port l) \<noteq> map_option protocol (port r)"
  then show "compare ncmp l r = ncmp (map_option address (port l)) (map_option address (port r))"
    by (simp add: compare_other_protocols)
qed

text \<open>The spec's example: A, B, C, D.\<close>

theorem reconciled_sorted_witness:
  "map (\<lambda>b. (map_option protocol (port b), map_option address (port b), state b))
     (reconciled naturalCompare B_memory four_boards)
   = [(Some ''serial'', Some ''A'', Some recognized), (Some ''serial'', Some ''B'', Some guessed),
      (Some ''network'', Some ''C'', Some recognized), (Some ''usb'', Some ''D'', Some recognized)]
   \<and> sorted_wrt (precedes naturalCompare) (reconciled naturalCompare B_memory four_boards)"
  using reconciled_sorted [of naturalCompare B_memory four_boards]
  by (simp add: four_boards_reconciled protocol_class_def serial_port_def naturalCompare_ABCD)

text \<open>
  C7 as stated fails: two entries of the protocols dfu and teensy are in the class of the
  other protocols, and the incomplete one comes before the recognized one. With a third
  entry the comparator runs in a circle on the computed entries, so that it is the
  comparator of no total order.
\<close>

theorem reconciled_sorted_counterexample:
  "map (\<lambda>b. (protocol_class b, state b)) (reconciled naturalCompare no_memory (unsetPort other_protocols))
     = [(2, Some incomplete), (2, Some recognized)]
   \<and> \<not> sorted_wrt (precedes naturalCompare)
         (reconciled naturalCompare no_memory (unsetPort other_protocols))
   \<and> set (reconciled naturalCompare no_memory (unsetPort three_others))
       = {selected_on_usb1, teensy_on_usb2, zero_on_usb3}
   \<and> compare naturalCompare zero_on_usb3 selected_on_usb1 < 0
   \<and> compare naturalCompare selected_on_usb1 teensy_on_usb2 < 0
   \<and> compare naturalCompare teensy_on_usb2 zero_on_usb3 < 0"
  using three_others_entries three_others_cycle
  by (simp add: other_protocols_reconciled protocol_class_def precedes_def state_class_def uno_def
      plain_board_def)

end
